theory Spec2Isabelle
  imports Complex_Main
begin

section \<open>The fragment of numpy the oscillator network uses\<close>

text \<open>
  A float64 array is its shape and its elements in row-major (C) order. The elements are
  real numbers: rounding, infinities and NaN are outside this development, and so are
  arrays of another dtype and views that share part of a buffer.
\<close>

datatype error = AssertionError | ValueError | IndexError | AxisError

datatype ndarray = NDArray (shape: "nat list") (data: "real list")

text \<open>\<^verbatim>\<open>a.size\<close>: the product of the dimensions.\<close>

definition size_nd :: "ndarray \<Rightarrow> nat" where
  "size_nd a = prod_list (shape a)"

text \<open>Every numpy array holds exactly \<^verbatim>\<open>size\<close> elements.\<close>

definition wf_ndarray :: "ndarray \<Rightarrow> bool" where
  "wf_ndarray a = (length (data a) = prod_list (shape a))"

text \<open>\<^verbatim>\<open>np.ndindex(*shape)\<close>: all multi-indices of a shape, last axis fastest.\<close>

fun ndindex :: "nat list \<Rightarrow> nat list list" where
  "ndindex [] = [[]]"
| "ndindex (n # ns) = concat (map (\<lambda>i. map ((#) i) (ndindex ns)) [0..<n])"

text \<open>The position of a multi-index in the row-major data.\<close>

fun ravel_index :: "nat list \<Rightarrow> nat list \<Rightarrow> nat" where
  "ravel_index (n # ns) (i # is) = i * prod_list ns + ravel_index ns is"
| "ravel_index _ _ = 0"

definition item :: "ndarray \<Rightarrow> nat list \<Rightarrow> real" where
  "item a idx = data a ! ravel_index (shape a) idx"

text \<open>
  Broadcasting: the shorter shape is padded with 1 on the left; two dimensions are
  compatible when they are equal or one of them is 1.
\<close>

definition broadcast_shapes :: "nat list \<Rightarrow> nat list \<Rightarrow> nat list option" where
  "broadcast_shapes s t =
     (let k = max (length s) (length t);
          s' = replicate (k - length s) 1 @ s;
          t' = replicate (k - length t) 1 @ t
      in if list_all2 (\<lambda>a b. a = b \<or> a = 1 \<or> b = 1) s' t'
         then Some (map2 (\<lambda>a b. if a = 1 then b else a) s' t')
         else None)"

text \<open>
  The element of \<open>a\<close> that a multi-index of the broadcast result reads: the index is
  aligned with the trailing axes of \<open>a\<close>, and an axis of length 1 is read at 0.
\<close>

definition bitem :: "ndarray \<Rightarrow> nat list \<Rightarrow> real" where
  "bitem a idx =
     item a (map2 (\<lambda>n i. if n = 1 then 0 else i) (shape a)
               (drop (length idx - length (shape a)) idx))"

definition and_then :: "error + 'a \<Rightarrow> ('a \<Rightarrow> error + 'b) \<Rightarrow> error + 'b" where
  "and_then r f = (case r of Inl e \<Rightarrow> Inl e | Inr x \<Rightarrow> f x)"

text \<open>A binary elementwise operation; shapes that do not broadcast raise ValueError.\<close>

definition ufunc2 :: "(real \<Rightarrow> real \<Rightarrow> real) \<Rightarrow> ndarray \<Rightarrow> ndarray \<Rightarrow> error + ndarray" where
  "ufunc2 f a b =
     (case broadcast_shapes (shape a) (shape b) of
        None \<Rightarrow> Inl ValueError
      | Some s \<Rightarrow> Inr (NDArray s (map (\<lambda>idx. f (bitem a idx) (bitem b idx)) (ndindex s))))"

definition np_add :: "ndarray \<Rightarrow> ndarray \<Rightarrow> error + ndarray" where
  "np_add = ufunc2 (+)"

definition np_subtract :: "ndarray \<Rightarrow> ndarray \<Rightarrow> error + ndarray" where
  "np_subtract = ufunc2 (-)"

definition np_multiply :: "ndarray \<Rightarrow> ndarray \<Rightarrow> error + ndarray" where
  "np_multiply = ufunc2 (*)"

definition np_sin :: "ndarray \<Rightarrow> ndarray" where
  "np_sin a = NDArray (shape a) (map sin (data a))"

text \<open>A Python float times an array, in either order.\<close>

definition scalar_mul :: "real \<Rightarrow> ndarray \<Rightarrow> ndarray" where
  "scalar_mul c a = NDArray (shape a) (map (\<lambda>x. c * x) (data a))"

text \<open>\<^verbatim>\<open>a[np.newaxis, :]\<close> and \<^verbatim>\<open>a[:, np.newaxis]\<close>; a 0-d array has no axis to slice.\<close>

definition newaxis_first :: "ndarray \<Rightarrow> error + ndarray" where
  "newaxis_first a =
     (case shape a of [] \<Rightarrow> Inl IndexError | n # ns \<Rightarrow> Inr (NDArray (1 # n # ns) (data a)))"

definition newaxis_second :: "ndarray \<Rightarrow> error + ndarray" where
  "newaxis_second a =
     (case shape a of [] \<Rightarrow> Inl IndexError | n # ns \<Rightarrow> Inr (NDArray (n # 1 # ns) (data a)))"

text \<open>\<^verbatim>\<open>a.sum(axis=1)\<close>.\<close>

definition sum_axis1 :: "ndarray \<Rightarrow> error + ndarray" where
  "sum_axis1 a =
     (case shape a of
        n # m # ns \<Rightarrow>
          Inr (NDArray (n # ns)
                 (concat (map (\<lambda>i. map (\<lambda>rest. sum_list (map (\<lambda>j. item a (i # j # rest)) [0..<m]))
                                      (ndindex ns))
                            [0..<n])))
      | _ \<Rightarrow> Inl AxisError)"

section \<open>Objects\<close>

text \<open>
  Arrays are objects: a caller's array and an attribute of the network can be the same
  object, and \<^verbatim>\<open>+=\<close> writes into it. The heap maps an address to the array it holds;
  addresses from \<open>next_free\<close> on are unused.
\<close>

type_synonym addr = nat

record heap =
  cells :: "addr \<Rightarrow> ndarray"
  next_free :: addr

definition new_array :: "heap \<Rightarrow> ndarray \<Rightarrow> addr \<times> heap" where
  "new_array h a =
     (next_free h, h\<lparr>cells := (cells h)(next_free h := a), next_free := Suc (next_free h)\<rparr>)"

text \<open>
  \<^verbatim>\<open>target += x\<close> on arrays: the sum is written into the target's buffer, whose shape
  cannot change.
\<close>

definition iadd :: "heap \<Rightarrow> addr \<Rightarrow> ndarray \<Rightarrow> error + heap" where
  "iadd h p x =
     and_then (np_add (cells h p) x) (\<lambda>y.
       if shape y = shape (cells h p) then Inr (h\<lparr>cells := (cells h)(p := y)\<rparr>)
       else Inl ValueError)"

section \<open>cpgnet.py\<close>

definition calculate_ddt ::
  "ndarray \<Rightarrow> ndarray \<Rightarrow> ndarray \<Rightarrow> ndarray \<Rightarrow> ndarray \<Rightarrow> ndarray \<Rightarrow> ndarray
     \<Rightarrow> error + (ndarray \<times> ndarray)" where
  "calculate_ddt theta r w phi nu R alpha =
     (let intrinsic_term = scalar_mul (2 * pi) nu in
      and_then (newaxis_first theta) (\<lambda>theta_row.
      and_then (newaxis_second theta) (\<lambda>theta_col.
      and_then (np_subtract theta_row theta_col) (\<lambda>phase_diff.
      and_then (np_multiply r w) (\<lambda>rw.
      and_then (np_subtract phase_diff phi) (\<lambda>d.
      and_then (np_multiply rw (np_sin d)) (\<lambda>prod.
      and_then (sum_axis1 prod) (\<lambda>coupling_term.
      and_then (np_add intrinsic_term coupling_term) (\<lambda>dtheta_dt.
      and_then (np_subtract R r) (\<lambda>diff.
      and_then (np_multiply alpha diff) (\<lambda>dr_dt.
      Inr (dtheta_dt, dr_dt))))))))))))"

text \<open>
  The network object. Its array attributes are references. \<open>'g\<close> is the state of the
  instance's \<^verbatim>\<open>np.random.RandomState\<close>.
\<close>

record 'g CPGNetwork =
  timestep :: real
  num_cpgs :: nat
  intrinsic_freqs :: addr
  intrinsic_amps :: addr
  coupling_weights :: addr
  phase_biases :: addr
  convergence_coefs :: addr
  random_state :: 'g
  curr_phases :: addr
  curr_magnitudes :: addr

text \<open>
  The generator is numpy's, not this repository's: \<open>next_double\<close> stands for one draw
  of \<^verbatim>\<open>random_sample\<close>, and \<^verbatim>\<open>random(n)\<close> is \<open>n\<close> draws in a row.
\<close>

fun random_sample :: "('g \<Rightarrow> real \<times> 'g) \<Rightarrow> 'g \<Rightarrow> nat \<Rightarrow> real list \<times> 'g" where
  "random_sample next_double g 0 = ([], g)"
| "random_sample next_double g (Suc n) =
     (let (u, g1) = next_double g;
          (us, g2) = random_sample next_double g1 n
      in (u # us, g2))"

definition reset ::
  "('g \<Rightarrow> real \<times> 'g) \<Rightarrow> 'g CPGNetwork \<Rightarrow> heap \<Rightarrow> addr option \<Rightarrow> addr option
     \<Rightarrow> 'g CPGNetwork \<times> heap" where
  "reset next_double self h init_phases init_magnitudes =
     (let (self1, h1) =
            (case init_phases of
               None \<Rightarrow>
                 (let (us, g) = random_sample next_double (random_state self) (num_cpgs self);
                      (p, h') = new_array h
                                  (scalar_mul pi (scalar_mul 2 (NDArray [num_cpgs self] us)))
                  in (self\<lparr>random_state := g, curr_phases := p\<rparr>, h'))
             | Some p \<Rightarrow> (self\<lparr>curr_phases := p\<rparr>, h))
      in (case init_magnitudes of
            None \<Rightarrow>
              (let (m, h') = new_array h1
                               (NDArray [num_cpgs self1] (replicate (num_cpgs self1) 0))
               in (self1\<lparr>curr_magnitudes := m\<rparr>, h'))
          | Some m \<Rightarrow> (self1\<lparr>curr_magnitudes := m\<rparr>, h1)))"

text \<open>
  \<^verbatim>\<open>__init__\<close>. \<open>new_random_state\<close> stands for \<^verbatim>\<open>np.random.RandomState(seed)\<close>, which can
  refuse a seed. The two state attributes do not exist before \<open>reset\<close> binds them; the
  record needs a value there, which \<open>reset\<close> overwrites in both of its branches.
\<close>

definition CPGNetwork_init ::
  "(int \<Rightarrow> error + 'g) \<Rightarrow> ('g \<Rightarrow> real \<times> 'g) \<Rightarrow> heap \<Rightarrow> real \<Rightarrow> addr \<Rightarrow> addr \<Rightarrow> addr \<Rightarrow> addr
     \<Rightarrow> addr \<Rightarrow> addr option \<Rightarrow> addr option \<Rightarrow> int \<Rightarrow> error + ('g CPGNetwork \<times> heap)" where
  "CPGNetwork_init new_random_state next_double h dt freqs amps weights biases coefs
       init_phases init_magnitudes seed =
     and_then (new_random_state seed) (\<lambda>g.
       (let self0 = \<lparr>timestep = dt, num_cpgs = size_nd (cells h freqs),
                     intrinsic_freqs = freqs, intrinsic_amps = amps,
                     coupling_weights = weights, phase_biases = biases,
                     convergence_coefs = coefs, random_state = g,
                     curr_phases = 0, curr_magnitudes = 0\<rparr>;
            (self, h1) = reset next_double self0 h init_phases init_magnitudes;
            N = num_cpgs self
        in if shape (cells h1 freqs) \<noteq> [N] then Inl AssertionError
           else if shape (cells h1 weights) \<noteq> [N, N] then Inl AssertionError
           else if shape (cells h1 biases) \<noteq> [N, N] then Inl AssertionError
           else if shape (cells h1 coefs) \<noteq> [N] then Inl AssertionError
           else if shape (cells h1 (curr_phases self)) \<noteq> [N] then Inl AssertionError
           else if shape (cells h1 (curr_magnitudes self)) \<noteq> [N] then Inl AssertionError
           else Inr (self, h1)))"

text \<open>
  \<^verbatim>\<open>step\<close>. Both derivatives are computed before the first write; the second \<^verbatim>\<open>+=\<close>
  reads the heap the first one wrote. No attribute of the object is rebound to another
  object, so the object itself is not returned.
\<close>

definition step :: "'g CPGNetwork \<Rightarrow> heap \<Rightarrow> error + heap" where
  "step self h =
     and_then (calculate_ddt (cells h (curr_phases self)) (cells h (curr_magnitudes self))
                 (cells h (coupling_weights self)) (cells h (phase_biases self))
                 (cells h (intrinsic_freqs self)) (cells h (intrinsic_amps self))
                 (cells h (convergence_coefs self))) (\<lambda>(dtheta_dt, dr_dt).
     and_then (iadd h (curr_phases self) (scalar_mul (timestep self) dtheta_dt)) (\<lambda>h1.
       iadd h1 (curr_magnitudes self) (scalar_mul (timestep self) dr_dt)))"

text \<open>\<open>k\<close> calls of \<^verbatim>\<open>step\<close> in a row, as the rollout loops make them.\<close>

fun steps :: "nat \<Rightarrow> 'g CPGNetwork \<Rightarrow> heap \<Rightarrow> error + heap" where
  "steps 0 self h = Inr h"
| "steps (Suc k) self h = and_then (step self h) (steps k self)"

section \<open>kinematics.py\<close>

definition get_go1_target_angles :: "real \<Rightarrow> real \<Rightarrow> ndarray" where
  "get_go1_target_angles phase amplitude =
     (let s = sin phase;
          angle_hip = 0;
          angle_thigh = 0.8 - (amplitude * 0.3) * s;
          base_calf = - 1.6;
          angle_calf = (if s > 0 then base_calf - (amplitude * 0.7) * s else base_calf)
      in NDArray [3] [angle_hip, angle_thigh, angle_calf])"

section \<open>Network states\<close>

text \<open>An address holds an array of a given shape with as many elements as the shape asks.\<close>

definition has_shape :: "heap \<Rightarrow> addr \<Rightarrow> nat list \<Rightarrow> bool" where
  "has_shape h a s = (shape (cells h a) = s \<and> wf_ndarray (cells h a))"

text \<open>The shapes the docstring of \<^verbatim>\<open>__init__\<close> gives, with \<open>N = num_cpgs\<close>.\<close>

definition well_shaped :: "'g CPGNetwork \<Rightarrow> heap \<Rightarrow> bool" where
  "well_shaped self h =
     (let N = num_cpgs self
      in has_shape h (intrinsic_freqs self) [N] \<and>
         has_shape h (intrinsic_amps self) [N] \<and>
         has_shape h (coupling_weights self) [N, N] \<and>
         has_shape h (phase_biases self) [N, N] \<and>
         has_shape h (convergence_coefs self) [N] \<and>
         has_shape h (curr_phases self) [N] \<and>
         has_shape h (curr_magnitudes self) [N])"

definition state_shapes :: "'g CPGNetwork \<Rightarrow> heap \<Rightarrow> bool" where
  "state_shapes self h =
     (shape (cells h (curr_phases self)) = [num_cpgs self] \<and>
      shape (cells h (curr_magnitudes self)) = [num_cpgs self])"

definition parameters :: "'g CPGNetwork \<Rightarrow> addr set" where
  "parameters self =
     {intrinsic_freqs self, intrinsic_amps self, coupling_weights self, phase_biases self,
      convergence_coefs self}"

text \<open>
  The two state arrays are objects of the network's own: they are two arrays, and neither
  is one of the parameter arrays.
\<close>

definition owns_state :: "'g CPGNetwork \<Rightarrow> bool" where
  "owns_state self =
     (curr_phases self \<noteq> curr_magnitudes self \<and>
      curr_phases self \<notin> parameters self \<and>
      curr_magnitudes self \<notin> parameters self)"

text \<open>
  The phase vector \<^verbatim>\<open>reset\<close> builds when no initial phases are given: \<open>N\<close> draws of the
  instance's generator in a row, each times 2 and times \<open>pi\<close>.
\<close>

definition drawn_phases :: "('g \<Rightarrow> real \<times> 'g) \<Rightarrow> 'g CPGNetwork \<Rightarrow> ndarray" where
  "drawn_phases nd self =
     NDArray [num_cpgs self]
       (map (\<lambda>u. pi * (2 * u)) (fst (random_sample nd (random_state self) (num_cpgs self))))"

text \<open>
  One forward-Euler update of the two equations, written out from the values the heap
  \<open>h\<close> holds: the phase vector and the magnitude vector it prescribes.
\<close>

definition euler_phases :: "'g CPGNetwork \<Rightarrow> heap \<Rightarrow> ndarray" where
  "euler_phases self h =
     (let N = num_cpgs self;
          \<theta> = data (cells h (curr_phases self));
          r = data (cells h (curr_magnitudes self));
          w = data (cells h (coupling_weights self));
          \<phi> = data (cells h (phase_biases self));
          \<nu> = data (cells h (intrinsic_freqs self))
      in NDArray [N]
           (map (\<lambda>i. \<theta> ! i + timestep self *
                         (2 * pi * \<nu> ! i +
                          (\<Sum>j<N. r ! j * w ! (i * N + j) *
                                   sin (\<theta> ! j - \<theta> ! i - \<phi> ! (i * N + j)))))
              [0..<N]))"

definition euler_magnitudes :: "'g CPGNetwork \<Rightarrow> heap \<Rightarrow> ndarray" where
  "euler_magnitudes self h =
     (let N = num_cpgs self;
          r = data (cells h (curr_magnitudes self));
          R = data (cells h (intrinsic_amps self));
          \<alpha> = data (cells h (convergence_coefs self))
      in NDArray [N] (map (\<lambda>i. r ! i + timestep self * \<alpha> ! i * (R ! i - r ! i)) [0..<N]))"

text \<open>What a caller reads from the network after \<open>k\<close> calls of \<^verbatim>\<open>step\<close>.\<close>

definition phases_after :: "nat \<Rightarrow> 'g CPGNetwork \<Rightarrow> heap \<Rightarrow> error + real list" where
  "phases_after k self h =
     and_then (steps k self h) (\<lambda>h'. Inr (data (cells h' (curr_phases self))))"

definition magnitudes_after :: "nat \<Rightarrow> 'g CPGNetwork \<Rightarrow> heap \<Rightarrow> error + real list" where
  "magnitudes_after k self h =
     and_then (steps k self h) (\<lambda>h'. Inr (data (cells h' (curr_magnitudes self))))"

text \<open>
  The phases after \<open>k\<close> steps of oscillators that turn at their own frequencies only, and
  the magnitudes after \<open>k\<close> Euler steps of \<open>dr/dt = \<alpha> (R - r)\<close>, both from the values
  the heap \<open>h\<close> holds.
\<close>

definition linear_phases :: "nat \<Rightarrow> 'g CPGNetwork \<Rightarrow> heap \<Rightarrow> real list" where
  "linear_phases k self h =
     map (\<lambda>i. data (cells h (curr_phases self)) ! i +
               real k * timestep self * 2 * pi * data (cells h (intrinsic_freqs self)) ! i)
       [0..<num_cpgs self]"

definition relaxed_magnitudes :: "nat \<Rightarrow> 'g CPGNetwork \<Rightarrow> heap \<Rightarrow> real list" where
  "relaxed_magnitudes k self h =
     map (\<lambda>i. data (cells h (intrinsic_amps self)) ! i -
               (data (cells h (intrinsic_amps self)) ! i -
                data (cells h (curr_magnitudes self)) ! i) *
               (1 - timestep self * data (cells h (convergence_coefs self)) ! i) ^ k)
       [0..<num_cpgs self]"

definition zero_coupling :: "'g CPGNetwork \<Rightarrow> heap \<Rightarrow> bool" where
  "zero_coupling self h =
     (data (cells h (coupling_weights self)) = replicate (num_cpgs self * num_cpgs self) 0)"

text \<open>The elements of an \<open>n\<close> by \<open>m\<close> array, row after row.\<close>

definition tabulate2 :: "nat \<Rightarrow> nat \<Rightarrow> (nat \<Rightarrow> nat \<Rightarrow> real) \<Rightarrow> real list" where
  "tabulate2 n m f = concat (map (\<lambda>i. map (f i) [0..<m]) [0..<n])"

section \<open>Callers\<close>

text \<open>
  The arrays \<^verbatim>\<open>plot_rollout.py\<close> and \<^verbatim>\<open>unitree_go1_trot.py\<close> build for the trot gait, and two
  zero vectors for the initial state: addresses 0 to 4 hold \<^verbatim>\<open>intrinsic_freqs\<close>,
  \<^verbatim>\<open>intrinsic_amps\<close>, \<^verbatim>\<open>phase_biases\<close>, \<^verbatim>\<open>coupling_weights\<close> and \<^verbatim>\<open>convergence_coefs\<close>.
\<close>

definition trot_heap :: heap where
  "trot_heap =
     \<lparr>cells = (\<lambda>_. NDArray [0] [])
        (0 := NDArray [4] [6, 6, 6, 6],
         1 := NDArray [4] [1, 1, 1, 1],
         2 := NDArray [4, 4] [0, pi, pi, 0,  pi, 0, 0, pi,  pi, 0, 0, pi,  0, pi, pi, 0],
         3 := NDArray [4, 4] [0, 10, 10, 0,  10, 0, 0, 10,  10, 0, 0, 10,  0, 10, 10, 0],
         4 := NDArray [4] [20, 20, 20, 20],
         5 := NDArray [4] [0, 0, 0, 0],
         6 := NDArray [4] [0, 0, 0, 0]),
      next_free = 7\<rparr>"

text \<open>The network \<^verbatim>\<open>CPGNetwork(0.002, ..., init_phases=a5, init_magnitudes=a6)\<close>.\<close>

definition trot_net :: "nat CPGNetwork" where
  "trot_net =
     \<lparr>timestep = 0.002, num_cpgs = 4, intrinsic_freqs = 0, intrinsic_amps = 1,
      coupling_weights = 3, phase_biases = 2, convergence_coefs = 4, random_state = 0,
      curr_phases = 5, curr_magnitudes = 6\<rparr>"

text \<open>
  The same call with one zero vector passed twice,
  \<^verbatim>\<open>z = np.zeros(4); CPGNetwork(..., init_phases=z, init_magnitudes=z)\<close>.
\<close>

definition shared_net :: "nat CPGNetwork" where
  "shared_net = trot_net\<lparr>curr_magnitudes := 5\<rparr>"

text \<open>The heap after one \<^verbatim>\<open>step\<close> of \<open>trot_net\<close>, and after one of \<open>shared_net\<close>.\<close>

definition trot_after :: heap where
  "trot_after =
     trot_heap\<lparr>cells := (cells trot_heap)
       (5 := NDArray [4] [3 * pi / 125, 3 * pi / 125, 3 * pi / 125, 3 * pi / 125],
        6 := NDArray [4] [1 / 25, 1 / 25, 1 / 25, 1 / 25])\<rparr>"

definition shared_after :: heap where
  "shared_after =
     trot_heap\<lparr>cells := (cells trot_heap)
       (5 := NDArray [4] [3 * pi / 125 + 1 / 25, 3 * pi / 125 + 1 / 25,
                          3 * pi / 125 + 1 / 25, 3 * pi / 125 + 1 / 25])\<rparr>"

text \<open>Four oscillators without coupling, with frequencies and phases of their own.\<close>

definition uncoupled_heap :: heap where
  "uncoupled_heap =
     trot_heap\<lparr>cells := (cells trot_heap)
       (0 := NDArray [4] [1, 2, 3, 4],
        3 := NDArray [4, 4] [0, 0, 0, 0,  0, 0, 0, 0,  0, 0, 0, 0,  0, 0, 0, 0],
        5 := NDArray [4] [0, 1, 2, 3])\<rparr>"

text \<open>The same without coupling and with \<^verbatim>\<open>convergence_coefs = np.ones(4) * 1500\<close>.\<close>

definition stiff_heap :: heap where
  "stiff_heap =
     uncoupled_heap\<lparr>cells := (cells uncoupled_heap)(4 := NDArray [4] [1500, 1500, 1500, 1500])\<rparr>"

text \<open>The trot arrays with \<^verbatim>\<open>intrinsic_amps = np.ones(3)\<close>.\<close>

definition short_amps_heap :: heap where
  "short_amps_heap = trot_heap\<lparr>cells := (cells trot_heap)(1 := NDArray [3] [1, 1, 1])\<rparr>"

text \<open>
  A caller that uses one array of ones twice,
  \<^verbatim>\<open>x = np.ones(4); CPGNetwork(0.002, x, 2 * np.ones(4), ..., init_phases=np.zeros(4), init_magnitudes=x)\<close>:
  address 0 holds \<^verbatim>\<open>x\<close>.
\<close>

definition reuse_heap :: heap where
  "reuse_heap =
     trot_heap\<lparr>cells := (cells trot_heap)
       (0 := NDArray [4] [1, 1, 1, 1],
        1 := NDArray [4] [2, 2, 2, 2])\<rparr>"

definition reuse_net :: "nat CPGNetwork" where
  "reuse_net = trot_net\<lparr>curr_magnitudes := 0\<rparr>"

definition reuse_after :: heap where
  "reuse_after =
     reuse_heap\<lparr>cells := (cells reuse_heap)
       (5 := NDArray [4] [pi / 250, pi / 250, pi / 250, pi / 250],
        0 := NDArray [4] [26 / 25, 26 / 25, 26 / 25, 26 / 25])\<rparr>"

text \<open>A generator for the examples: its state counts the draws, draw \<open>g\<close> is \<open>1 / (g + 2)\<close>.\<close>

definition harmonic_draw :: "nat \<Rightarrow> real \<times> nat" where
  "harmonic_draw g = (1 / (real g + 2), Suc g)"

text \<open>
  The example generator and the trot arrays: the object and the heap that \<^verbatim>\<open>reset()\<close>
  without arguments leaves, and the heap the constructor leaves when \<^verbatim>\<open>intrinsic_amps\<close>
  has three elements.
\<close>

definition fresh_net :: "nat CPGNetwork" where
  "fresh_net = trot_net\<lparr>random_state := 4, curr_phases := 7, curr_magnitudes := 8\<rparr>"

definition fresh_heap :: heap where
  "fresh_heap =
     trot_heap\<lparr>cells := (cells trot_heap)
       (7 := NDArray [4] [pi, pi * 2 / 3, pi / 2, pi * 2 / 5],
        8 := NDArray [4] [0, 0, 0, 0]),
       next_free := 9\<rparr>"

definition short_amps_built :: heap where
  "short_amps_built =
     short_amps_heap\<lparr>cells := (cells short_amps_heap)
       (7 := NDArray [4] [pi, pi * 2 / 3, pi / 2, pi * 2 / 5],
        8 := NDArray [4] [0, 0, 0, 0]),
       next_free := 9\<rparr>"

text \<open>A caller that also holds a vector of three elements, at address 7.\<close>

definition caller_heap :: heap where
  "caller_heap = trot_heap\<lparr>cells := (cells trot_heap)(7 := NDArray [3] [0, 0, 0]), next_free := 8\<rparr>"

section \<open>Sequencing\<close>

lemma and_then_Inr [simp]: "and_then (Inr x) f = f x"
  by (simp add: and_then_def)

lemma and_then_Inl [simp]: "and_then (Inl e) f = Inl e"
  by (simp add: and_then_def)

section \<open>Elementwise operations on vectors and square matrices\<close>

lemma ndindex_vec: "ndindex [n] = map (\<lambda>i. [i]) [0..<n]"
  by (simp add: concat_map_singleton)

lemma ndindex_mat: "ndindex [n, m] = concat (map (\<lambda>i. map (\<lambda>j. [i, j]) [0..<m]) [0..<n])"
  by (simp add: concat_map_singleton comp_def)

lemma map_concat_rows:
  "map g (concat (map (\<lambda>i. map (f i) js) is)) = concat (map (\<lambda>i. map (\<lambda>j. g (f i j)) js) is)"
  by (simp add: map_concat comp_def)

lemma concat_rows_cong:
  "(\<And>i j. i \<in> set is \<Longrightarrow> j \<in> set js \<Longrightarrow> f i j = g i j) \<Longrightarrow>
     concat (map (\<lambda>i. map (f i) js) is) = concat (map (\<lambda>i. map (g i) js) is)"
  by (rule arg_cong [where f = concat]) (simp cong: map_cong)

lemma length_concat_rows:
  "length (concat (map (\<lambda>i. map (f i) [0..<m]) [0..<n])) = n * m"
  by (induction n) simp_all

lemma nth_concat_rows:
  "i < n \<Longrightarrow> j < m \<Longrightarrow> concat (map (\<lambda>i. map (f i) [0..<m]) [0..<n]) ! (i * m + j) = f i j"
proof (induction n)
  case 0
  then show ?case by simp
next
  case (Suc n)
  show ?case
  proof (cases "i < n")
    case True
    then have "Suc i * m \<le> n * m"
      by (simp only: Suc_leI mult_le_mono1)
    with Suc.prems(2) have "i * m + j < n * m"
      by simp
    then show ?thesis
      using True Suc by (simp add: nth_append length_concat_rows)
  next
    case False
    then have "i = n" using Suc.prems(1) by simp
    then show ?thesis
      using Suc.prems(2) by (simp add: nth_append length_concat_rows)
  qed
qed

lemma nth_tabulate2: "i < n \<Longrightarrow> j < m \<Longrightarrow> tabulate2 n m f ! (i * m + j) = f i j"
  by (simp add: tabulate2_def nth_concat_rows)

lemma tabulate2_cong:
  "(\<And>i j. i < n \<Longrightarrow> j < m \<Longrightarrow> f i j = g i j) \<Longrightarrow> tabulate2 n m f = tabulate2 n m g"
  unfolding tabulate2_def by (rule concat_rows_cong) simp

lemma map_tabulate2: "map g (tabulate2 n m f) = tabulate2 n m (\<lambda>i j. g (f i j))"
  by (simp add: tabulate2_def map_concat_rows)

lemma bitem_vec: "i < n \<Longrightarrow> bitem (NDArray [n] xs) [i] = xs ! i"
  by (auto simp: bitem_def item_def)

lemma bitem_vec2: "j < n \<Longrightarrow> bitem (NDArray [n] xs) [i, j] = xs ! j"
  by (auto simp: bitem_def item_def)

lemma bitem_mat: "i < n \<Longrightarrow> j < m \<Longrightarrow> bitem (NDArray [n, m] xs) [i, j] = xs ! (i * m + j)"
  by (auto simp: bitem_def item_def)

lemma bitem_row: "j < n \<Longrightarrow> bitem (NDArray [1, n] xs) [i, j] = xs ! j"
  by (auto simp: bitem_def item_def)

lemma bitem_col: "i < n \<Longrightarrow> bitem (NDArray [n, 1] xs) [i, j] = xs ! i"
  by (auto simp: bitem_def item_def)

lemma broadcast_vec_vec: "broadcast_shapes [n] [n] = Some [n]"
  by (simp add: broadcast_shapes_def)

lemma broadcast_mat_mat: "broadcast_shapes [n, m] [n, m] = Some [n, m]"
  by (simp add: broadcast_shapes_def)

lemma broadcast_vec_mat: "broadcast_shapes [m] [n, m] = Some [n, m]"
  by (simp add: broadcast_shapes_def)

lemma broadcast_row_col: "broadcast_shapes [1, n] [n, 1] = Some [n, n]"
  by (simp add: broadcast_shapes_def)

lemma ufunc2_vec:
  "ufunc2 f (NDArray [n] xs) (NDArray [n] ys) =
     Inr (NDArray [n] (map (\<lambda>i. f (xs ! i) (ys ! i)) [0..<n]))"
  by (simp add: ufunc2_def broadcast_vec_vec ndindex_vec bitem_vec comp_def)

lemma ufunc2_vec_map:
  "ufunc2 f (NDArray [n] xs) (NDArray [n] (map G [0..<n])) =
     Inr (NDArray [n] (map (\<lambda>i. f (xs ! i) (G i)) [0..<n]))"
  unfolding ufunc2_vec by simp

lemma ufunc2_map_map:
  "length xs = n \<Longrightarrow>
   ufunc2 f (NDArray [n] (map g xs)) (NDArray [n] (map G [0..<n])) =
     Inr (NDArray [n] (map (\<lambda>i. f (g (xs ! i)) (G i)) [0..<n]))"
  unfolding ufunc2_vec by simp

lemma ufunc2_to_mat:
  "broadcast_shapes (shape a) (shape b) = Some [n, m] \<Longrightarrow>
     ufunc2 f a b =
       Inr (NDArray [n, m] (tabulate2 n m (\<lambda>i j. f (bitem a [i, j]) (bitem b [i, j]))))"
  by (simp add: ufunc2_def ndindex_mat map_concat comp_def tabulate2_def)

lemma ufunc2_row_col:
  "ufunc2 f (NDArray [1, n] xs) (NDArray [n, 1] ys) =
     Inr (NDArray [n, n] (tabulate2 n n (\<lambda>i j. f (xs ! j) (ys ! i))))"
proof -
  have "broadcast_shapes (shape (NDArray [1, n] xs)) (shape (NDArray [n, 1] ys)) = Some [n, n]"
    using broadcast_row_col by simp
  moreover have "tabulate2 n n (\<lambda>i j. f (bitem (NDArray [1, n] xs) [i, j])
                                       (bitem (NDArray [n, 1] ys) [i, j])) =
      tabulate2 n n (\<lambda>i j. f (xs ! j) (ys ! i))"
    by (rule tabulate2_cong) (simp only: bitem_row bitem_col)
  ultimately show ?thesis
    by (simp only: ufunc2_to_mat)
qed

lemma ufunc2_vec_mat:
  "ufunc2 f (NDArray [m] xs) (NDArray [n, m] ys) =
     Inr (NDArray [n, m] (tabulate2 n m (\<lambda>i j. f (xs ! j) (ys ! (i * m + j)))))"
proof -
  have "broadcast_shapes (shape (NDArray [m] xs)) (shape (NDArray [n, m] ys)) = Some [n, m]"
    using broadcast_vec_mat by simp
  moreover have "tabulate2 n m (\<lambda>i j. f (bitem (NDArray [m] xs) [i, j])
                                       (bitem (NDArray [n, m] ys) [i, j])) =
      tabulate2 n m (\<lambda>i j. f (xs ! j) (ys ! (i * m + j)))"
    by (rule tabulate2_cong) (simp only: bitem_vec2 bitem_mat)
  ultimately show ?thesis
    by (simp only: ufunc2_to_mat)
qed

lemma ufunc2_mat:
  "ufunc2 f (NDArray [n, m] xs) (NDArray [n, m] ys) =
     Inr (NDArray [n, m] (tabulate2 n m (\<lambda>i j. f (xs ! (i * m + j)) (ys ! (i * m + j)))))"
proof -
  have "broadcast_shapes (shape (NDArray [n, m] xs)) (shape (NDArray [n, m] ys)) = Some [n, m]"
    using broadcast_mat_mat by simp
  moreover have "tabulate2 n m (\<lambda>i j. f (bitem (NDArray [n, m] xs) [i, j])
                                       (bitem (NDArray [n, m] ys) [i, j])) =
      tabulate2 n m (\<lambda>i j. f (xs ! (i * m + j)) (ys ! (i * m + j)))"
    by (rule tabulate2_cong) (simp only: bitem_mat)
  ultimately show ?thesis
    by (simp only: ufunc2_to_mat)
qed

lemma ufunc2_tab_mat:
  "ufunc2 f (NDArray [n, m] (tabulate2 n m F)) (NDArray [n, m] ys) =
     Inr (NDArray [n, m] (tabulate2 n m (\<lambda>i j. f (F i j) (ys ! (i * m + j)))))"
proof -
  have "tabulate2 n m (\<lambda>i j. f (tabulate2 n m F ! (i * m + j)) (ys ! (i * m + j))) =
      tabulate2 n m (\<lambda>i j. f (F i j) (ys ! (i * m + j)))"
    by (rule tabulate2_cong) (simp only: nth_tabulate2)
  then show ?thesis
    by (simp only: ufunc2_mat)
qed

lemma ufunc2_tab_tab:
  "ufunc2 f (NDArray [n, m] (tabulate2 n m F)) (NDArray [n, m] (tabulate2 n m G)) =
     Inr (NDArray [n, m] (tabulate2 n m (\<lambda>i j. f (F i j) (G i j))))"
proof -
  have "tabulate2 n m (\<lambda>i j. f (tabulate2 n m F ! (i * m + j)) (tabulate2 n m G ! (i * m + j))) =
      tabulate2 n m (\<lambda>i j. f (F i j) (G i j))"
    by (rule tabulate2_cong) (simp only: nth_tabulate2)
  then show ?thesis
    by (simp only: ufunc2_mat)
qed

lemma sum_axis1_tab:
  "sum_axis1 (NDArray [n, m] (tabulate2 n m F)) =
     Inr (NDArray [n] (map (\<lambda>i. \<Sum>j<m. F i j) [0..<n]))"
  by (simp add: sum_axis1_def item_def concat_map_singleton interv_sum_list_conv_sum_set_nat
      atLeast0LessThan nth_tabulate2)

section \<open>The derivatives and one step on arrays of the documented shapes\<close>

lemma calculate_ddt_phase_part:
  assumes "length ns = n"
  shows "calculate_ddt (NDArray [n] ts) (NDArray [n] rs) (NDArray [n, n] ws) (NDArray [n, n] ps)
           (NDArray [n] ns) R alpha =
         and_then (np_subtract R (NDArray [n] rs)) (\<lambda>diff.
         and_then (np_multiply alpha diff) (\<lambda>dr_dt.
           Inr (NDArray [n] (map (\<lambda>i. 2 * pi * ns ! i +
                                  (\<Sum>j<n. rs ! j * ws ! (i * n + j) *
                                           sin (ts ! j - ts ! i - ps ! (i * n + j)))) [0..<n]),
                dr_dt)))"
proof -
  let ?diff = "NDArray [n, n] (tabulate2 n n (\<lambda>i j. ts ! j - ts ! i))"
  let ?rw = "NDArray [n, n] (tabulate2 n n (\<lambda>i j. rs ! j * ws ! (i * n + j)))"
  let ?d = "NDArray [n, n] (tabulate2 n n (\<lambda>i j. ts ! j - ts ! i - ps ! (i * n + j)))"
  let ?sd = "NDArray [n, n] (tabulate2 n n (\<lambda>i j. sin (ts ! j - ts ! i - ps ! (i * n + j))))"
  let ?prod = "NDArray [n, n] (tabulate2 n n (\<lambda>i j. rs ! j * ws ! (i * n + j) *
                                                 sin (ts ! j - ts ! i - ps ! (i * n + j))))"
  let ?coupling = "NDArray [n] (map (\<lambda>i. \<Sum>j<n. rs ! j * ws ! (i * n + j) *
                                     sin (ts ! j - ts ! i - ps ! (i * n + j))) [0..<n])"
  have row: "newaxis_first (NDArray [n] ts) = Inr (NDArray [1, n] ts)"
    by (simp add: newaxis_first_def)
  have col: "newaxis_second (NDArray [n] ts) = Inr (NDArray [n, 1] ts)"
    by (simp add: newaxis_second_def)
  have diff: "np_subtract (NDArray [1, n] ts) (NDArray [n, 1] ts) = Inr ?diff"
    unfolding np_subtract_def by (rule ufunc2_row_col)
  have rw: "np_multiply (NDArray [n] rs) (NDArray [n, n] ws) = Inr ?rw"
    unfolding np_multiply_def by (rule ufunc2_vec_mat)
  have d: "np_subtract ?diff (NDArray [n, n] ps) = Inr ?d"
    unfolding np_subtract_def by (rule ufunc2_tab_mat)
  have sd: "np_sin ?d = ?sd"
    by (simp add: np_sin_def map_tabulate2)
  have prod: "np_multiply ?rw ?sd = Inr ?prod"
    unfolding np_multiply_def by (rule ufunc2_tab_tab)
  have coupling: "sum_axis1 ?prod = Inr ?coupling"
    by (rule sum_axis1_tab)
  have dtheta: "np_add (scalar_mul (2 * pi) (NDArray [n] ns)) ?coupling =
      Inr (NDArray [n] (map (\<lambda>i. 2 * pi * ns ! i +
                                  (\<Sum>j<n. rs ! j * ws ! (i * n + j) *
                                           sin (ts ! j - ts ! i - ps ! (i * n + j)))) [0..<n]))"
    using assms by (simp add: np_add_def scalar_mul_def ufunc2_map_map)
  show ?thesis
    unfolding calculate_ddt_def Let_def
    by (simp only: row col diff rw d sd prod coupling dtheta and_then_Inr)
qed

lemma calculate_ddt_shaped:
  assumes "length ns = n"
  shows "calculate_ddt (NDArray [n] ts) (NDArray [n] rs) (NDArray [n, n] ws) (NDArray [n, n] ps)
           (NDArray [n] ns) (NDArray [n] Rs) (NDArray [n] as) =
         Inr (NDArray [n] (map (\<lambda>i. 2 * pi * ns ! i +
                                  (\<Sum>j<n. rs ! j * ws ! (i * n + j) *
                                           sin (ts ! j - ts ! i - ps ! (i * n + j)))) [0..<n]),
              NDArray [n] (map (\<lambda>i. as ! i * (Rs ! i - rs ! i)) [0..<n]))"
proof -
  let ?Rr = "NDArray [n] (map (\<lambda>i. Rs ! i - rs ! i) [0..<n])"
  have Rr: "np_subtract (NDArray [n] Rs) (NDArray [n] rs) = Inr ?Rr"
    by (simp add: np_subtract_def ufunc2_vec)
  have dr: "np_multiply (NDArray [n] as) ?Rr =
      Inr (NDArray [n] (map (\<lambda>i. as ! i * (Rs ! i - rs ! i)) [0..<n]))"
    unfolding np_multiply_def by (rule ufunc2_vec_map)
  show ?thesis
    unfolding calculate_ddt_phase_part [OF assms]
    by (simp only: Rr dr and_then_Inr)
qed

lemma has_shapeD: "has_shape h a s \<Longrightarrow> cells h a = NDArray s (data (cells h a))"
  by (cases "cells h a") (simp add: has_shape_def)

lemma has_shape_length: "has_shape h a [n] \<Longrightarrow> length (data (cells h a)) = n"
  by (simp add: has_shape_def wf_ndarray_def)

lemma iadd_vec:
  "shape (cells h p) = [n] \<Longrightarrow>
   iadd h p (scalar_mul c (NDArray [n] (map F [0..<n]))) =
     Inr (h\<lparr>cells := (cells h)
            (p := NDArray [n] (map (\<lambda>i. data (cells h p) ! i + c * F i) [0..<n]))\<rparr>)"
proof -
  assume "shape (cells h p) = [n]"
  then have "cells h p = NDArray [n] (data (cells h p))"
    by (cases "cells h p") simp
  then have "np_add (cells h p) (NDArray [n] (map (\<lambda>i. c * F i) [0..<n])) =
      Inr (NDArray [n] (map (\<lambda>i. data (cells h p) ! i + c * F i) [0..<n]))"
    using ufunc2_vec_map [of "(+)" n "data (cells h p)" "\<lambda>i. c * F i"]
    by (simp add: np_add_def)
  then show ?thesis
    using \<open>shape (cells h p) = [n]\<close> by (simp add: iadd_def scalar_mul_def comp_def)
qed

text \<open>
  On a network of the documented shapes the two derivative vectors are computed from the
  heap before the call; whether the two \<^verbatim>\<open>+=\<close> write into two arrays or into one is
  still open here.
\<close>

lemma step_well_shaped:
  assumes "well_shaped self h"
  shows "step self h =
     and_then (iadd h (curr_phases self)
        (scalar_mul (timestep self)
           (NDArray [num_cpgs self]
              (map (\<lambda>i. 2 * pi * data (cells h (intrinsic_freqs self)) ! i +
                      (\<Sum>j<num_cpgs self.
                          data (cells h (curr_magnitudes self)) ! j *
                          data (cells h (coupling_weights self)) ! (i * num_cpgs self + j) *
                          sin (data (cells h (curr_phases self)) ! j -
                               data (cells h (curr_phases self)) ! i -
                               data (cells h (phase_biases self)) ! (i * num_cpgs self + j))))
                 [0..<num_cpgs self]))))
       (\<lambda>h1. iadd h1 (curr_magnitudes self)
          (scalar_mul (timestep self)
             (NDArray [num_cpgs self]
                (map (\<lambda>i. data (cells h (convergence_coefs self)) ! i *
                          (data (cells h (intrinsic_amps self)) ! i -
                           data (cells h (curr_magnitudes self)) ! i))
                   [0..<num_cpgs self]))))"
proof -
  let ?N = "num_cpgs self"
  from assms have
    p: "cells h (curr_phases self) = NDArray [?N] (data (cells h (curr_phases self)))" and
    m: "cells h (curr_magnitudes self) = NDArray [?N] (data (cells h (curr_magnitudes self)))" and
    w: "cells h (coupling_weights self) = NDArray [?N, ?N] (data (cells h (coupling_weights self)))" and
    b: "cells h (phase_biases self) = NDArray [?N, ?N] (data (cells h (phase_biases self)))" and
    f: "cells h (intrinsic_freqs self) = NDArray [?N] (data (cells h (intrinsic_freqs self)))" and
    a: "cells h (intrinsic_amps self) = NDArray [?N] (data (cells h (intrinsic_amps self)))" and
    c: "cells h (convergence_coefs self) = NDArray [?N] (data (cells h (convergence_coefs self)))"
    by (simp_all add: well_shaped_def Let_def has_shapeD)
  from assms have len: "length (data (cells h (intrinsic_freqs self))) = ?N"
    by (simp add: well_shaped_def Let_def has_shape_length)
  have "calculate_ddt (cells h (curr_phases self)) (cells h (curr_magnitudes self))
          (cells h (coupling_weights self)) (cells h (phase_biases self))
          (cells h (intrinsic_freqs self)) (cells h (intrinsic_amps self))
          (cells h (convergence_coefs self)) =
        Inr (NDArray [?N]
              (map (\<lambda>i. 2 * pi * data (cells h (intrinsic_freqs self)) ! i +
                      (\<Sum>j<?N.
                          data (cells h (curr_magnitudes self)) ! j *
                          data (cells h (coupling_weights self)) ! (i * ?N + j) *
                          sin (data (cells h (curr_phases self)) ! j -
                               data (cells h (curr_phases self)) ! i -
                               data (cells h (phase_biases self)) ! (i * ?N + j))))
                 [0..<?N]),
             NDArray [?N]
                (map (\<lambda>i. data (cells h (convergence_coefs self)) ! i *
                          (data (cells h (intrinsic_amps self)) ! i -
                           data (cells h (curr_magnitudes self)) ! i))
                   [0..<?N]))"
    using calculate_ddt_shaped [OF len] p m w b f a c by metis
  then show ?thesis
    by (simp add: step_def)
qed

lemma step_separate:
  assumes "well_shaped self h" and "curr_phases self \<noteq> curr_magnitudes self"
  shows "step self h =
           Inr (h\<lparr>cells := (cells h)(curr_phases self := euler_phases self h,
                                       curr_magnitudes self := euler_magnitudes self h)\<rparr>)"
proof -
  from assms(1) have p: "shape (cells h (curr_phases self)) = [num_cpgs self]"
    and m: "shape (cells h (curr_magnitudes self)) = [num_cpgs self]"
    by (simp_all add: well_shaped_def Let_def has_shape_def)
  have m': "shape (cells (h\<lparr>cells := (cells h)(curr_phases self := x)\<rparr>) (curr_magnitudes self)) =
      [num_cpgs self]" for x
    using assms(2) m by simp
  show ?thesis
    unfolding step_well_shaped [OF assms(1)]
    using assms(2)
    by (simp add: iadd_vec [OF p] iadd_vec [OF m'] euler_phases_def euler_magnitudes_def Let_def
        mult.assoc)
qed

lemma step_shared:
  assumes "well_shaped self h" and "curr_phases self = curr_magnitudes self"
  shows "step self h =
     Inr (h\<lparr>cells := (cells h)
            (curr_phases self :=
               NDArray [num_cpgs self]
                 (map (\<lambda>i. data (euler_phases self h) ! i +
                           timestep self *
                             (data (cells h (convergence_coefs self)) ! i *
                              (data (cells h (intrinsic_amps self)) ! i -
                               data (cells h (curr_magnitudes self)) ! i)))
                    [0..<num_cpgs self]))\<rparr>)"
proof -
  from assms(1) have p: "shape (cells h (curr_phases self)) = [num_cpgs self]"
    by (simp add: well_shaped_def Let_def has_shape_def)
  have p': "shape (cells (h\<lparr>cells := (cells h)(curr_phases self := euler_phases self h)\<rparr>)
      (curr_phases self)) = [num_cpgs self]"
    by (simp add: euler_phases_def Let_def)
  have "iadd h (curr_phases self)
      (scalar_mul (timestep self)
         (NDArray [num_cpgs self]
            (map (\<lambda>i. 2 * pi * data (cells h (intrinsic_freqs self)) ! i +
                    (\<Sum>j<num_cpgs self.
                        data (cells h (curr_magnitudes self)) ! j *
                        data (cells h (coupling_weights self)) ! (i * num_cpgs self + j) *
                        sin (data (cells h (curr_phases self)) ! j -
                             data (cells h (curr_phases self)) ! i -
                             data (cells h (phase_biases self)) ! (i * num_cpgs self + j))))
               [0..<num_cpgs self]))) =
    Inr (h\<lparr>cells := (cells h)(curr_phases self := euler_phases self h)\<rparr>)"
    by (simp add: iadd_vec [OF p] euler_phases_def Let_def)
  then show ?thesis
    unfolding step_well_shaped [OF assms(1)]
    by (simp add: assms(2) [symmetric] iadd_vec [OF p'])
qed

lemma iadd_frame:
  "iadd h p x = Inr h' \<Longrightarrow>
     next_free h' = next_free h \<and> (\<forall>a. a \<noteq> p \<longrightarrow> cells h' a = cells h a) \<and>
     shape (cells h' p) = shape (cells h p)"
  by (auto simp: iadd_def and_then_def split: sum.splits if_splits)

section \<open>Invariants of stepping\<close>

lemma shape_euler_phases [simp]: "shape (euler_phases self h) = [num_cpgs self]"
  by (simp add: euler_phases_def Let_def)

lemma shape_euler_magnitudes [simp]: "shape (euler_magnitudes self h) = [num_cpgs self]"
  by (simp add: euler_magnitudes_def Let_def)

lemma wf_euler_phases [simp]: "wf_ndarray (euler_phases self h)"
  by (simp add: euler_phases_def Let_def wf_ndarray_def)

lemma wf_euler_magnitudes [simp]: "wf_ndarray (euler_magnitudes self h)"
  by (simp add: euler_magnitudes_def Let_def wf_ndarray_def)

lemma has_shape_unique: "has_shape h a s \<Longrightarrow> has_shape h a t \<Longrightarrow> s = t"
  by (simp add: has_shape_def)

lemma has_shape_euler:
  assumes "has_shape h a s"
    and "has_shape h (curr_phases self) [num_cpgs self]"
    and "has_shape h (curr_magnitudes self) [num_cpgs self]"
  shows "has_shape (h\<lparr>cells := (cells h)(curr_phases self := euler_phases self h,
                                        curr_magnitudes self := euler_magnitudes self h)\<rparr>) a s"
proof (cases "a = curr_magnitudes self")
  case True
  with assms(1,3) have "s = [num_cpgs self]"
    by (auto dest: has_shape_unique)
  with True show ?thesis
    by (simp add: has_shape_def)
next
  case False
  show ?thesis
  proof (cases "a = curr_phases self")
    case True
    with assms(1,2) have "s = [num_cpgs self]"
      by (auto dest: has_shape_unique)
    with True False show ?thesis
      by (simp add: has_shape_def)
  next
    case False
    with \<open>a \<noteq> curr_magnitudes self\<close> assms(1) show ?thesis
      by (simp add: has_shape_def)
  qed
qed

lemma well_shaped_euler:
  assumes "well_shaped self h"
  shows "well_shaped self (h\<lparr>cells := (cells h)(curr_phases self := euler_phases self h,
                                       curr_magnitudes self := euler_magnitudes self h)\<rparr>)"
  using assms unfolding well_shaped_def Let_def
  by (intro conjI has_shape_euler) simp_all

lemma steps_Suc_separate:
  assumes "well_shaped self h" and "curr_phases self \<noteq> curr_magnitudes self"
  shows "steps (Suc k) self h =
     steps k self (h\<lparr>cells := (cells h)(curr_phases self := euler_phases self h,
                                       curr_magnitudes self := euler_magnitudes self h)\<rparr>)"
  by (simp add: step_separate [OF assms])

lemma nth_euler_magnitudes:
  "i < num_cpgs self \<Longrightarrow>
   data (euler_magnitudes self h) ! i =
     data (cells h (curr_magnitudes self)) ! i +
     timestep self * data (cells h (convergence_coefs self)) ! i *
       (data (cells h (intrinsic_amps self)) ! i - data (cells h (curr_magnitudes self)) ! i)"
  by (simp add: euler_magnitudes_def Let_def)

lemma nth_euler_phases:
  "i < num_cpgs self \<Longrightarrow>
   data (euler_phases self h) ! i =
     data (cells h (curr_phases self)) ! i +
     timestep self *
       (2 * pi * data (cells h (intrinsic_freqs self)) ! i +
        (\<Sum>j<num_cpgs self.
            data (cells h (curr_magnitudes self)) ! j *
            data (cells h (coupling_weights self)) ! (i * num_cpgs self + j) *
            sin (data (cells h (curr_phases self)) ! j - data (cells h (curr_phases self)) ! i -
                 data (cells h (phase_biases self)) ! (i * num_cpgs self + j))))"
  by (simp add: euler_phases_def Let_def)

lemma steps_magnitudes:
  assumes "well_shaped self h" and "owns_state self"
  shows "magnitudes_after k self h =
     Inr (map (\<lambda>i. data (cells h (intrinsic_amps self)) ! i -
                   (data (cells h (intrinsic_amps self)) ! i -
                    data (cells h (curr_magnitudes self)) ! i) *
                   (1 - timestep self * data (cells h (convergence_coefs self)) ! i) ^ k)
            [0..<num_cpgs self])"
  using assms(1)
proof (induction k arbitrary: h)
  case 0
  then have "length (data (cells h (curr_magnitudes self))) = num_cpgs self"
    by (simp add: well_shaped_def Let_def has_shape_length)
  then have "map ((!) (data (cells h (curr_magnitudes self)))) [0..<num_cpgs self] =
      data (cells h (curr_magnitudes self))"
    using map_nth [of "data (cells h (curr_magnitudes self))"] by simp
  then show ?case
    by (simp add: magnitudes_after_def)
next
  case (Suc k)
  let ?h1 = "h\<lparr>cells := (cells h)(curr_phases self := euler_phases self h,
                                  curr_magnitudes self := euler_magnitudes self h)\<rparr>"
  from assms(2) have sep: "curr_phases self \<noteq> curr_magnitudes self"
    and amps: "intrinsic_amps self \<noteq> curr_phases self" "intrinsic_amps self \<noteq> curr_magnitudes self"
    and coefs: "convergence_coefs self \<noteq> curr_phases self"
      "convergence_coefs self \<noteq> curr_magnitudes self"
    by (auto simp: owns_state_def parameters_def)
  have "magnitudes_after (Suc k) self h = magnitudes_after k self ?h1"
    unfolding magnitudes_after_def by (simp only: steps_Suc_separate [OF Suc.prems sep])
  also have "\<dots> = Inr (map (\<lambda>i. data (cells ?h1 (intrinsic_amps self)) ! i -
                   (data (cells ?h1 (intrinsic_amps self)) ! i -
                    data (cells ?h1 (curr_magnitudes self)) ! i) *
                   (1 - timestep self * data (cells ?h1 (convergence_coefs self)) ! i) ^ k)
            [0..<num_cpgs self])"
    by (rule Suc.IH) (rule well_shaped_euler [OF Suc.prems])
  also have "\<dots> = Inr (map (\<lambda>i. data (cells h (intrinsic_amps self)) ! i -
                   (data (cells h (intrinsic_amps self)) ! i -
                    data (cells h (curr_magnitudes self)) ! i) *
                   (1 - timestep self * data (cells h (convergence_coefs self)) ! i) ^ Suc k)
            [0..<num_cpgs self])"
    using amps coefs by (simp add: nth_euler_magnitudes algebra_simps)
  finally show ?case .
qed

lemma steps_phases_uncoupled:
  assumes "well_shaped self h" and "owns_state self"
    and "data (cells h (coupling_weights self)) = replicate (num_cpgs self * num_cpgs self) 0"
  shows "phases_after k self h =
     Inr (map (\<lambda>i. data (cells h (curr_phases self)) ! i +
                   real k * timestep self * 2 * pi * data (cells h (intrinsic_freqs self)) ! i)
            [0..<num_cpgs self])"
  using assms(1,3)
proof (induction k arbitrary: h)
  case 0
  then have "length (data (cells h (curr_phases self))) = num_cpgs self"
    by (simp add: well_shaped_def Let_def has_shape_length)
  then have "map ((!) (data (cells h (curr_phases self)))) [0..<num_cpgs self] =
      data (cells h (curr_phases self))"
    using map_nth [of "data (cells h (curr_phases self))"] by simp
  then show ?case
    by (simp add: phases_after_def)
next
  case (Suc k)
  let ?N = "num_cpgs self"
  let ?h1 = "h\<lparr>cells := (cells h)(curr_phases self := euler_phases self h,
                                  curr_magnitudes self := euler_magnitudes self h)\<rparr>"
  from assms(2) have sep: "curr_phases self \<noteq> curr_magnitudes self"
    and freqs: "intrinsic_freqs self \<noteq> curr_phases self"
      "intrinsic_freqs self \<noteq> curr_magnitudes self"
    and weights: "coupling_weights self \<noteq> curr_phases self"
      "coupling_weights self \<noteq> curr_magnitudes self"
    by (auto simp: owns_state_def parameters_def)
  have zero: "data (cells h (coupling_weights self)) ! (i * ?N + j) = 0"
    if "i < ?N" "j < ?N" for i j
  proof -
    from that have "Suc i * ?N \<le> ?N * ?N"
      by (simp only: Suc_leI mult_le_mono1)
    with that(2) have "i * ?N + j < ?N * ?N"
      by simp
    then show ?thesis
      by (simp add: Suc.prems(2))
  qed
  have first: "data (euler_phases self h) ! i =
      data (cells h (curr_phases self)) ! i +
      timestep self * 2 * pi * data (cells h (intrinsic_freqs self)) ! i" if "i < ?N" for i
    using that by (simp add: nth_euler_phases zero)
  have "phases_after (Suc k) self h = phases_after k self ?h1"
    unfolding phases_after_def by (simp only: steps_Suc_separate [OF Suc.prems(1) sep])
  also have "\<dots> = Inr (map (\<lambda>i. data (cells ?h1 (curr_phases self)) ! i +
                   real k * timestep self * 2 * pi * data (cells ?h1 (intrinsic_freqs self)) ! i)
            [0..<?N])"
    using weights Suc.prems(2)
    by (intro Suc.IH well_shaped_euler [OF Suc.prems(1)]) simp
  also have "\<dots> = Inr (map (\<lambda>i. data (cells h (curr_phases self)) ! i +
                   real (Suc k) * timestep self * 2 * pi * data (cells h (intrinsic_freqs self)) ! i)
            [0..<?N])"
    using sep freqs by (simp add: first algebra_simps)
  finally show ?case .
qed

lemma steps_relaxed:
  "well_shaped self h \<Longrightarrow> owns_state self \<Longrightarrow>
     magnitudes_after k self h = Inr (relaxed_magnitudes k self h)"
  by (simp add: steps_magnitudes relaxed_magnitudes_def)

section \<open>Reset and construction\<close>

lemma length_random_sample: "length (fst (random_sample nd g n)) = n"
  by (induction n arbitrary: g) (simp_all add: split_def Let_def)

lemma set_random_sample:
  "(\<And>g. P (fst (nd g))) \<Longrightarrow> x \<in> set (fst (random_sample nd g n)) \<Longrightarrow> P x"
  by (induction n arbitrary: g) (auto simp: split_def Let_def)

lemma reset_cases:
  "reset nd self h None None =
     (self\<lparr>random_state := snd (random_sample nd (random_state self) (num_cpgs self)),
           curr_phases := next_free h, curr_magnitudes := Suc (next_free h)\<rparr>,
      h\<lparr>cells := (cells h)
           (next_free h := NDArray [num_cpgs self]
              (map (\<lambda>u. pi * (2 * u)) (fst (random_sample nd (random_state self) (num_cpgs self)))),
            Suc (next_free h) := NDArray [num_cpgs self] (replicate (num_cpgs self) 0)),
         next_free := Suc (Suc (next_free h))\<rparr>)"
  "reset nd self h None (Some m) =
     (self\<lparr>random_state := snd (random_sample nd (random_state self) (num_cpgs self)),
           curr_phases := next_free h, curr_magnitudes := m\<rparr>,
      h\<lparr>cells := (cells h)
           (next_free h := NDArray [num_cpgs self]
              (map (\<lambda>u. pi * (2 * u)) (fst (random_sample nd (random_state self) (num_cpgs self))))),
         next_free := Suc (next_free h)\<rparr>)"
  "reset nd self h (Some p) None =
     (self\<lparr>curr_phases := p, curr_magnitudes := next_free h\<rparr>,
      h\<lparr>cells := (cells h)
           (next_free h := NDArray [num_cpgs self] (replicate (num_cpgs self) 0)),
         next_free := Suc (next_free h)\<rparr>)"
  "reset nd self h (Some p) (Some m) = (self\<lparr>curr_phases := p, curr_magnitudes := m\<rparr>, h)"
  by (simp_all add: reset_def new_array_def scalar_mul_def split_def Let_def comp_def)

lemma drawn_phases_range:
  assumes "\<And>g. 0 \<le> fst (nd g) \<and> fst (nd g) < 1"
  shows "\<forall>x\<in>set (data (drawn_phases nd self)). 0 \<le> x \<and> x < 2 * pi"
proof
  fix x
  assume "x \<in> set (data (drawn_phases nd self))"
  then obtain u where u: "u \<in> set (fst (random_sample nd (random_state self) (num_cpgs self)))"
    and x: "x = pi * (2 * u)"
    by (auto simp: drawn_phases_def)
  from set_random_sample [of "\<lambda>u. 0 \<le> u \<and> u < 1" nd, OF assms u]
  have "0 \<le> u" "u < 1"
    by simp_all
  then have "0 \<le> pi * (2 * u)" and "pi * (2 * u) < pi * (2 * 1)"
    by (simp_all add: pi_gt_zero)
  then show "0 \<le> x \<and> x < 2 * pi"
    by (simp add: x)
qed

lemma iadd_shapes: "iadd h p x = Inr h' \<Longrightarrow> shape (cells h' a) = shape (cells h a)"
  using iadd_frame [of h p x h'] by (cases "a = p") simp_all

lemma step_shapes:
  assumes "step self h = Inr h'"
  shows "shape (cells h' a) = shape (cells h a)"
proof -
  from assms obtain d h1 where
    h1: "iadd h (curr_phases self) (scalar_mul (timestep self) (fst d)) = Inr h1" and
    h': "iadd h1 (curr_magnitudes self) (scalar_mul (timestep self) (snd d)) = Inr h'"
    by (auto simp: step_def and_then_def split: sum.splits prod.splits)
  from iadd_shapes [OF h1] iadd_shapes [OF h'] show ?thesis
    by simp
qed

lemma init_state_shapes:
  assumes "CPGNetwork_init new_random_state nd h dt freqs amps weights biases coefs ip im seed =
      Inr (self, h')"
  shows "state_shapes self h'"
  using assms
  by (auto simp: CPGNetwork_init_def and_then_def state_shapes_def Let_def split_def
      split: sum.splits if_splits)

lemma reset_state_shapes:
  assumes "reset nd self h ip im = (self', h')"
    and "\<forall>p. ip = Some p \<longrightarrow> shape (cells h p) = [num_cpgs self]"
    and "\<forall>m. im = Some m \<longrightarrow> shape (cells h m) = [num_cpgs self]"
  shows "state_shapes self' h'"
proof (cases ip)
  case None
  show ?thesis
  proof (cases im)
    case None
    with \<open>ip = None\<close> assms show ?thesis
      by (auto simp: reset_cases(1) state_shapes_def)
  next
    case (Some m)
    with \<open>ip = None\<close> assms show ?thesis
      by (auto simp: reset_cases(2) state_shapes_def)
  qed
next
  case (Some p)
  show ?thesis
  proof (cases im)
    case None
    with \<open>ip = Some p\<close> assms show ?thesis
      by (auto simp: reset_cases(3) state_shapes_def)
  next
    case (Some m)
    with \<open>ip = Some p\<close> assms show ?thesis
      by (auto simp: reset_cases(4) state_shapes_def)
  qed
qed

text \<open>What the constructor checks, and what it does not: \<open>amps\<close> is absent from the test.\<close>

lemma CPGNetwork_init_checks:
  assumes "new_random_state seed = Inr g"
    and "freqs < next_free h" "weights < next_free h" "biases < next_free h" "coefs < next_free h"
    and "\<forall>p. ip = Some p \<longrightarrow> p < next_free h"
    and "\<forall>m. im = Some m \<longrightarrow> m < next_free h"
  shows "CPGNetwork_init new_random_state nd h dt freqs amps weights biases coefs ip im seed =
     (let N = size_nd (cells h freqs)
      in if shape (cells h freqs) = [N] \<and> shape (cells h weights) = [N, N] \<and>
            shape (cells h biases) = [N, N] \<and> shape (cells h coefs) = [N] \<and>
            (\<forall>p. ip = Some p \<longrightarrow> shape (cells h p) = [N]) \<and>
            (\<forall>m. im = Some m \<longrightarrow> shape (cells h m) = [N])
         then Inr (reset nd
                \<lparr>timestep = dt, num_cpgs = N, intrinsic_freqs = freqs, intrinsic_amps = amps,
                 coupling_weights = weights, phase_biases = biases, convergence_coefs = coefs,
                 random_state = g, curr_phases = 0, curr_magnitudes = 0\<rparr> h ip im)
         else Inl AssertionError)"
proof (cases ip)
  case None
  show ?thesis
  proof (cases im)
    case None
    with \<open>ip = None\<close> assms show ?thesis
      by (simp add: CPGNetwork_init_def reset_cases(1) Let_def)
  next
    case (Some m)
    with \<open>ip = None\<close> assms show ?thesis
      by (simp add: CPGNetwork_init_def reset_cases(2) Let_def)
  qed
next
  case (Some p)
  show ?thesis
  proof (cases im)
    case None
    with \<open>ip = Some p\<close> assms show ?thesis
      by (simp add: CPGNetwork_init_def reset_cases(3) Let_def)
  next
    case (Some m)
    with \<open>ip = Some p\<close> assms show ?thesis
      by (simp add: CPGNetwork_init_def reset_cases(4) Let_def)
  qed
qed

section \<open>The example callers, evaluated\<close>

lemma upt4: "[0..<4] = [0, 1, 2, 3]"
  by code_simp

lemma sum4: "(\<Sum>j<(4::nat). f j) = f 0 + f 1 + f 2 + (f 3 :: real)"
  by (simp add: eval_nat_numeral)

lemma trot_well_shaped: "well_shaped trot_net trot_heap"
  by (simp add: well_shaped_def trot_net_def trot_heap_def has_shape_def wf_ndarray_def)

lemma shared_well_shaped: "well_shaped shared_net trot_heap"
  by (simp add: well_shaped_def shared_net_def trot_net_def trot_heap_def has_shape_def
      wf_ndarray_def)

lemma uncoupled_well_shaped: "well_shaped trot_net uncoupled_heap"
  by (simp add: well_shaped_def trot_net_def uncoupled_heap_def trot_heap_def has_shape_def
      wf_ndarray_def)

lemma shared_uncoupled_well_shaped: "well_shaped shared_net uncoupled_heap"
  by (simp add: well_shaped_def shared_net_def trot_net_def uncoupled_heap_def trot_heap_def
      has_shape_def wf_ndarray_def)

lemma stiff_well_shaped: "well_shaped trot_net stiff_heap"
  by (simp add: well_shaped_def trot_net_def stiff_heap_def uncoupled_heap_def trot_heap_def
      has_shape_def wf_ndarray_def)

lemma reuse_well_shaped: "well_shaped reuse_net reuse_heap"
  by (simp add: well_shaped_def reuse_net_def trot_net_def reuse_heap_def trot_heap_def
      has_shape_def wf_ndarray_def)

lemma trot_owns_state: "owns_state trot_net"
  by (simp add: owns_state_def parameters_def trot_net_def)

lemma trot_euler_phases:
  "euler_phases trot_net trot_heap =
     NDArray [4] [3 * pi / 125, 3 * pi / 125, 3 * pi / 125, 3 * pi / 125]"
  by (simp add: euler_phases_def trot_net_def trot_heap_def upt4 sum4)

lemma trot_euler_magnitudes:
  "euler_magnitudes trot_net trot_heap = NDArray [4] [1 / 25, 1 / 25, 1 / 25, 1 / 25]"
  by (simp add: euler_magnitudes_def trot_net_def trot_heap_def upt4)

lemma shared_euler_phases:
  "euler_phases shared_net trot_heap =
     NDArray [4] [3 * pi / 125, 3 * pi / 125, 3 * pi / 125, 3 * pi / 125]"
  by (simp add: euler_phases_def shared_net_def trot_net_def trot_heap_def upt4 sum4)

lemma trot_step: "step trot_net trot_heap = Inr trot_after"
proof -
  have "curr_phases trot_net \<noteq> curr_magnitudes trot_net"
    by (simp add: trot_net_def)
  from step_separate [OF trot_well_shaped this] show ?thesis
    by (simp add: trot_euler_phases trot_euler_magnitudes trot_after_def) (simp add: trot_net_def)
qed

lemma shared_step: "step shared_net trot_heap = Inr shared_after"
proof -
  have "curr_phases shared_net = curr_magnitudes shared_net"
    by (simp add: shared_net_def trot_net_def)
  from step_shared [OF shared_well_shaped this] show ?thesis
    by (simp add: shared_euler_phases shared_after_def)
      (simp add: shared_net_def trot_net_def trot_heap_def upt4)
qed

lemma reuse_step: "step reuse_net reuse_heap = Inr reuse_after"
proof -
  have "curr_phases reuse_net \<noteq> curr_magnitudes reuse_net"
    by (simp add: reuse_net_def trot_net_def)
  from step_separate [OF reuse_well_shaped this] show ?thesis
    by (simp add: reuse_after_def euler_phases_def euler_magnitudes_def reuse_net_def trot_net_def
        reuse_heap_def trot_heap_def upt4 sum4)
qed

lemma uncoupled_zero_coupling: "zero_coupling trot_net uncoupled_heap"
  by (simp add: zero_coupling_def trot_net_def uncoupled_heap_def trot_heap_def)
    (simp add: eval_nat_numeral)

lemma shared_uncoupled_zero_coupling: "zero_coupling shared_net uncoupled_heap"
  using uncoupled_zero_coupling by (simp add: zero_coupling_def shared_net_def)

lemma stiff_zero_coupling: "zero_coupling trot_net stiff_heap"
  using uncoupled_zero_coupling by (simp add: zero_coupling_def stiff_heap_def trot_net_def)

lemma shared_uncoupled_phases:
  "phases_after 1 shared_net uncoupled_heap =
     Inr [pi / 250 + 1 / 25, 1 + pi / 125, 2 + 3 * pi / 250 - 1 / 25, 3 + 2 * pi / 125 - 2 / 25]"
proof -
  have "curr_phases shared_net = curr_magnitudes shared_net"
    by (simp add: shared_net_def trot_net_def)
  from step_shared [OF shared_uncoupled_well_shaped this] show ?thesis
    by (simp add: phases_after_def euler_phases_def shared_net_def trot_net_def uncoupled_heap_def
        trot_heap_def upt4 sum4)
qed

lemma stiff_relaxed:
  "relaxed_magnitudes k trot_net stiff_heap =
     [1 - (- 2) ^ k, 1 - (- 2) ^ k, 1 - (- 2) ^ k, 1 - (- 2) ^ k]"
  by (simp add: relaxed_magnitudes_def trot_net_def stiff_heap_def uncoupled_heap_def
      trot_heap_def upt4)

lemma shared_magnitudes:
  "magnitudes_after 1 shared_net trot_heap =
     Inr [3 * pi / 125 + 1 / 25, 3 * pi / 125 + 1 / 25, 3 * pi / 125 + 1 / 25,
          3 * pi / 125 + 1 / 25]"
  by (simp add: magnitudes_after_def shared_step) (simp add: shared_after_def shared_net_def
      trot_net_def)

lemma trot_magnitudes:
  "magnitudes_after 1 trot_net trot_heap = Inr [1 / 25, 1 / 25, 1 / 25, 1 / 25]"
  by (simp add: magnitudes_after_def trot_step) (simp add: trot_after_def trot_net_def)

lemma harmonic_sample: "random_sample harmonic_draw 0 4 = ([1 / 2, 1 / 3, 1 / 4, 1 / 5], 4)"
  by (simp add: eval_nat_numeral harmonic_draw_def)

lemma replicate4: "replicate 4 x = [x, x, x, x]"
  by (simp add: eval_nat_numeral)

lemma harmonic_range: "0 \<le> fst (harmonic_draw g) \<and> fst (harmonic_draw g) < 1"
  by (simp add: harmonic_draw_def)

lemma trot_reset_fresh: "reset harmonic_draw trot_net trot_heap None None = (fresh_net, fresh_heap)"
proof -
  have "num_cpgs trot_net = 4" "random_state trot_net = 0" "next_free trot_heap = 7"
    by (simp_all add: trot_net_def trot_heap_def)
  then show ?thesis
    by (simp add: reset_cases(1) harmonic_sample fresh_net_def fresh_heap_def replicate4)
qed

lemma trot_reset_same:
  "reset harmonic_draw trot_net trot_heap (Some 5) (Some 6) = (trot_net, trot_heap)"
  by (simp add: reset_cases(4) trot_net_def)

lemma trot_init:
  "CPGNetwork_init (\<lambda>seed. Inr 0) harmonic_draw trot_heap 0.002 0 1 3 2 4 (Some 5) (Some 6) 0 =
     Inr (trot_net, trot_heap)"
  by (simp add: CPGNetwork_init_def reset_cases(4) size_nd_def trot_net_def)
    (simp add: trot_heap_def)

lemma broadcast_3_4: "broadcast_shapes [3] [4] = None"
  by (simp add: broadcast_shapes_def)

lemma short_amps_init:
  "CPGNetwork_init (\<lambda>seed. Inr 0) harmonic_draw short_amps_heap 0.002 0 1 3 2 4 None None 0 =
     Inr (fresh_net, short_amps_built)"
proof -
  have "reset harmonic_draw
      \<lparr>timestep = 0.002, num_cpgs = 4, intrinsic_freqs = 0, intrinsic_amps = 1,
       coupling_weights = 3, phase_biases = 2, convergence_coefs = 4, random_state = 0,
       curr_phases = 0, curr_magnitudes = 0\<rparr> short_amps_heap None None =
    (fresh_net, short_amps_built)"
    by (simp add: reset_cases(1) harmonic_sample replicate4 fresh_net_def trot_net_def
        short_amps_built_def short_amps_heap_def trot_heap_def)
  moreover have "size_nd (cells short_amps_heap 0) = 4"
    by (simp add: size_nd_def short_amps_heap_def trot_heap_def)
  ultimately show ?thesis
    by (simp add: CPGNetwork_init_def)
      (simp add: fresh_net_def trot_net_def short_amps_built_def short_amps_heap_def trot_heap_def)
qed

lemma short_amps_step: "step fresh_net short_amps_built = Inl ValueError"
proof -
  have "calculate_ddt (NDArray [4] [pi, pi * 2 / 3, pi / 2, pi * 2 / 5]) (NDArray [4] [0, 0, 0, 0])
      (NDArray [4, 4] [0, 10, 10, 0,  10, 0, 0, 10,  10, 0, 0, 10,  0, 10, 10, 0])
      (NDArray [4, 4] [0, pi, pi, 0,  pi, 0, 0, pi,  pi, 0, 0, pi,  0, pi, pi, 0])
      (NDArray [4] [6, 6, 6, 6]) (NDArray [3] [1, 1, 1]) (NDArray [4] [20, 20, 20, 20]) =
    Inl ValueError"
    by (subst calculate_ddt_phase_part) (simp_all add: np_subtract_def ufunc2_def broadcast_3_4)
  then show ?thesis
    by (simp add: step_def fresh_net_def trot_net_def short_amps_built_def short_amps_heap_def
        trot_heap_def)
qed

section \<open>One step is one forward-Euler update\<close>

text \<open>
  C1, amended. On a network whose arrays have the documented shapes and whose
  \<^verbatim>\<open>curr_phases\<close> and \<^verbatim>\<open>curr_magnitudes\<close> are two arrays, one call of \<^verbatim>\<open>step\<close>
  returns, changes nothing on the heap but these two arrays, and leaves in them one
  forward-Euler update computed from the heap before the call: phase \<open>i\<close> becomes
  \<open>\<theta> i + timestep * (2 pi \<nu> i + (\<Sum>j. r j * w i j * sin (\<theta> j - \<theta> i - \<phi> i j)))\<close> and magnitude
  \<open>i\<close> becomes \<open>r i + timestep * \<alpha> i * (R i - r i)\<close>.
\<close>

theorem step_forward_euler:
  assumes "well_shaped self h" and "curr_phases self \<noteq> curr_magnitudes self"
  shows "step self h =
           Inr (h\<lparr>cells := (cells h)(curr_phases self := euler_phases self h,
                                       curr_magnitudes self := euler_magnitudes self h)\<rparr>)"
  using assms by (rule step_separate)

text \<open>The trot network of the rollout scripts, started from two zero vectors.\<close>

theorem step_forward_euler_witness:
  "well_shaped trot_net trot_heap \<and> curr_phases trot_net \<noteq> curr_magnitudes trot_net \<and>
   step trot_net trot_heap = Inr trot_after"
proof -
  have sep: "curr_phases trot_net \<noteq> curr_magnitudes trot_net"
    by (simp add: trot_net_def)
  have "trot_heap\<lparr>cells := (cells trot_heap)
          (curr_phases trot_net := euler_phases trot_net trot_heap,
           curr_magnitudes trot_net := euler_magnitudes trot_net trot_heap)\<rparr> = trot_after"
    by (simp add: trot_euler_phases trot_euler_magnitudes trot_after_def) (simp add: trot_net_def)
  with step_forward_euler [OF trot_well_shaped sep] trot_well_shaped sep show ?thesis
    by simp
qed

text \<open>
  C1 as stated, for every network state, fails where one array is both state vectors:
  both \<^verbatim>\<open>+=\<close> land in it, and the phases read afterwards are not the Euler update.
\<close>

theorem step_shared_array_counterexample:
  "well_shaped shared_net trot_heap \<and> step shared_net trot_heap = Inr shared_after \<and>
   cells shared_after (curr_phases shared_net) \<noteq> euler_phases shared_net trot_heap"
proof -
  have "cells shared_after (curr_phases shared_net) \<noteq> euler_phases shared_net trot_heap"
    by (simp add: shared_euler_phases) (simp add: shared_after_def shared_net_def trot_net_def)
  with shared_well_shaped shared_step show ?thesis
    by simp
qed

section \<open>Phases without coupling\<close>

text \<open>
  C4, amended. On a network with the documented shapes whose coupling weights are all
  zero and whose two state arrays are objects of its own (two arrays, neither of them a
  parameter array), \<open>k\<close> calls of \<^verbatim>\<open>step\<close> return and leave every phase \<open>i\<close> at its
  initial value plus \<open>k * timestep * 2 pi * intrinsic_freqs[i]\<close>, for every \<open>k\<close>.
\<close>

theorem phases_linear_without_coupling:
  assumes "well_shaped self h" and "owns_state self" and "zero_coupling self h"
  shows "phases_after k self h = Inr (linear_phases k self h)"
  using assms by (simp add: steps_phases_uncoupled zero_coupling_def linear_phases_def)

text \<open>Four uncoupled oscillators at 1, 2, 3 and 4 Hz, three steps of 2 ms.\<close>

theorem phases_linear_without_coupling_witness:
  "well_shaped trot_net uncoupled_heap \<and> owns_state trot_net \<and>
   zero_coupling trot_net uncoupled_heap \<and>
   phases_after 3 trot_net uncoupled_heap =
     Inr [3 * pi / 250, 1 + 3 * pi / 125, 2 + 9 * pi / 250, 3 + 6 * pi / 125]"
proof -
  have "linear_phases 3 trot_net uncoupled_heap =
      [3 * pi / 250, 1 + 3 * pi / 125, 2 + 9 * pi / 250, 3 + 6 * pi / 125]"
    by (simp add: linear_phases_def trot_net_def uncoupled_heap_def trot_heap_def upt4)
  with phases_linear_without_coupling
    [OF uncoupled_well_shaped trot_owns_state uncoupled_zero_coupling, of 3]
    uncoupled_well_shaped trot_owns_state uncoupled_zero_coupling
  show ?thesis
    by simp
qed

text \<open>
  C4 as stated, for every network with zero coupling, fails where one array is both state
  vectors: after one step the phases also hold the magnitude increments.
\<close>

theorem phases_shared_array_counterexample:
  "well_shaped shared_net uncoupled_heap \<and> zero_coupling shared_net uncoupled_heap \<and>
   phases_after 1 shared_net uncoupled_heap \<noteq> Inr (linear_phases 1 shared_net uncoupled_heap)"
proof -
  have lin: "linear_phases 1 shared_net uncoupled_heap =
      [pi / 250, 1 + pi / 125, 2 + 3 * pi / 250, 3 + 2 * pi / 125]"
    by (simp add: linear_phases_def shared_net_def trot_net_def uncoupled_heap_def trot_heap_def
        upt4)
  have "phases_after 1 shared_net uncoupled_heap \<noteq>
      Inr (linear_phases 1 shared_net uncoupled_heap)"
    unfolding shared_uncoupled_phases lin by simp
  with shared_uncoupled_well_shaped shared_uncoupled_zero_coupling show ?thesis
    by blast
qed

section \<open>Magnitudes relax to the intrinsic amplitude\<close>

text \<open>
  C5, amended. On a network with the documented shapes whose two state arrays are objects
  of its own, let oscillator \<open>i\<close> start at magnitude 0 with target \<open>R\<close> and coefficient
  \<open>a\<close>, and let \<open>0 < timestep * a \<le> 1\<close>. Then every number \<open>k\<close> of calls of \<^verbatim>\<open>step\<close>
  returns, and the magnitude read after \<open>k\<close> calls is \<open>R * (1 - (1 - timestep * a) ^ k)\<close>:
  its distance to \<open>R\<close> never grows, it moves from 0 toward \<open>R\<close> without passing it, and for
  every \<open>\<epsilon> > 0\<close> it stays within \<open>\<epsilon>\<close> of \<open>R\<close> from some step count on. The coupling
  weights play no part.
\<close>

theorem magnitude_converges:
  assumes "well_shaped self h" and "owns_state self" and "i < num_cpgs self"
    and "data (cells h (curr_magnitudes self)) ! i = 0"
    and "data (cells h (intrinsic_amps self)) ! i = R"
    and "data (cells h (convergence_coefs self)) ! i = a"
    and "0 < timestep self * a" and "timestep self * a \<le> 1"
  shows "\<exists>r. (\<forall>k. magnitudes_after k self h = Inr (r k)) \<and>
             (\<forall>k. r k ! i = R * (1 - (1 - timestep self * a) ^ k)) \<and>
             (\<forall>k. \<bar>R - r (Suc k) ! i\<bar> \<le> \<bar>R - r k ! i\<bar>) \<and>
             (\<forall>k. 0 \<le> R \<longrightarrow> r k ! i \<le> r (Suc k) ! i \<and> r (Suc k) ! i \<le> R) \<and>
             (\<forall>k. R \<le> 0 \<longrightarrow> R \<le> r (Suc k) ! i \<and> r (Suc k) ! i \<le> r k ! i) \<and>
             (\<forall>\<epsilon>>0. \<exists>K. \<forall>k\<ge>K. \<bar>r k ! i - R\<bar> < \<epsilon>)"
proof -
  define q where "q = 1 - timestep self * a"
  define r where "r k = relaxed_magnitudes k self h" for k
  have q: "0 \<le> q" "q < 1"
    using assms(7,8) by (simp_all add: q_def)
  have run: "magnitudes_after k self h = Inr (r k)" for k
    unfolding r_def by (rule steps_relaxed [OF assms(1,2)])
  have val: "r k ! i = R * (1 - q ^ k)" for k
    using assms(3-6) by (simp add: r_def relaxed_magnitudes_def q_def algebra_simps)
  have dist: "R - r k ! i = R * q ^ k" for k
    by (simp add: val algebra_simps)
  have pow: "q ^ Suc k \<le> q ^ k" for k
    using q by (simp add: mult_left_le_one_le)
  have pow0: "0 \<le> q ^ k" for k
    using q by simp
  have mono: "\<bar>R - r (Suc k) ! i\<bar> \<le> \<bar>R - r k ! i\<bar>" for k
  proof -
    have "\<bar>R\<bar> * q ^ Suc k \<le> \<bar>R\<bar> * q ^ k"
      using pow [of k] by (intro mult_left_mono) simp_all
    moreover have "\<bar>R * q ^ n\<bar> = \<bar>R\<bar> * q ^ n" for n
      using pow0 [of n] by (simp only: abs_mult abs_of_nonneg)
    ultimately show ?thesis
      by (simp only: dist)
  qed
  have up: "r k ! i \<le> r (Suc k) ! i \<and> r (Suc k) ! i \<le> R" if "0 \<le> R" for k
  proof -
    have "R * q ^ Suc k \<le> R * q ^ k"
      using that pow [of k] by (rule mult_left_mono [rotated])
    moreover have "0 \<le> R * q ^ Suc k"
      using that pow0 [of "Suc k"] by (rule mult_nonneg_nonneg)
    ultimately show ?thesis
      unfolding val by (simp add: algebra_simps)
  qed
  have down: "R \<le> r (Suc k) ! i \<and> r (Suc k) ! i \<le> r k ! i" if "R \<le> 0" for k
  proof -
    have "R * q ^ k \<le> R * q ^ Suc k"
      using that pow [of k] by (rule mult_left_mono_neg [rotated])
    moreover have "R * q ^ Suc k \<le> 0"
      using that pow0 [of "Suc k"] by (rule mult_nonpos_nonneg)
    ultimately show ?thesis
      unfolding val by (simp add: algebra_simps)
  qed
  have lim: "\<exists>K. \<forall>k\<ge>K. \<bar>r k ! i - R\<bar> < \<epsilon>" if "0 < \<epsilon>" for \<epsilon>
  proof -
    have "(\<lambda>k. q ^ k) \<longlonglongrightarrow> 0"
      using q by (rule LIMSEQ_realpow_zero)
    then have "(\<lambda>k. R * q ^ k) \<longlonglongrightarrow> R * 0"
      by (rule tendsto_mult_left)
    then have "\<exists>K. \<forall>k\<ge>K. norm (R * q ^ k - 0) < \<epsilon>"
      using that by (simp add: LIMSEQ_iff)
    then obtain K where "\<forall>k\<ge>K. \<bar>R * q ^ k\<bar> < \<epsilon>"
      by auto
    moreover have "\<bar>r k ! i - R\<bar> = \<bar>R * q ^ k\<bar>" for k
      using dist [of k] by (simp add: abs_minus_commute)
    ultimately show ?thesis
      by auto
  qed
  show ?thesis
    using run val mono up down lim unfolding q_def by blast
qed

text \<open>Oscillator 0 of the uncoupled network: target 1, coefficient 20, steps of 2 ms.\<close>

theorem magnitude_converges_witness:
  "well_shaped trot_net uncoupled_heap \<and> owns_state trot_net \<and> 0 < num_cpgs trot_net \<and>
   data (cells uncoupled_heap (curr_magnitudes trot_net)) ! 0 = 0 \<and>
   data (cells uncoupled_heap (intrinsic_amps trot_net)) ! 0 = 1 \<and>
   data (cells uncoupled_heap (convergence_coefs trot_net)) ! 0 = 20 \<and>
   0 < timestep trot_net * 20 \<and> timestep trot_net * 20 \<le> 1 \<and>
   (\<exists>r. (\<forall>k. magnitudes_after k trot_net uncoupled_heap = Inr (r k)) \<and>
        (\<forall>k. r k ! 0 = 1 - (24 / 25) ^ k) \<and>
        (\<forall>k. r k ! 0 \<le> r (Suc k) ! 0 \<and> r (Suc k) ! 0 \<le> 1) \<and>
        (\<forall>\<epsilon>>0. \<exists>K. \<forall>k\<ge>K. \<bar>r k ! 0 - 1\<bar> < \<epsilon>))"
proof -
  have i: "0 < num_cpgs trot_net"
    and r0: "data (cells uncoupled_heap (curr_magnitudes trot_net)) ! 0 = 0"
    and R: "data (cells uncoupled_heap (intrinsic_amps trot_net)) ! 0 = 1"
    and a: "data (cells uncoupled_heap (convergence_coefs trot_net)) ! 0 = 20"
    and lo: "0 < timestep trot_net * 20" and hi: "timestep trot_net * 20 \<le> 1"
    by (simp_all add: trot_net_def uncoupled_heap_def trot_heap_def)
  have dt: "1 - timestep trot_net * 20 = 24 / 25"
    by (simp add: trot_net_def)
  from magnitude_converges [OF uncoupled_well_shaped trot_owns_state i r0 R a lo hi]
  obtain r where run: "\<forall>k. magnitudes_after k trot_net uncoupled_heap = Inr (r k)"
    and val: "\<forall>k. r k ! 0 = 1 * (1 - (1 - timestep trot_net * 20) ^ k)"
    and up: "\<forall>k. (0::real) \<le> 1 \<longrightarrow> r k ! 0 \<le> r (Suc k) ! 0 \<and> r (Suc k) ! 0 \<le> 1"
    and lim: "\<forall>\<epsilon>>0. \<exists>K. \<forall>k\<ge>K. \<bar>r k ! 0 - 1\<bar> < \<epsilon>"
    by blast
  from val have val': "\<forall>k. r k ! 0 = 1 - (24 / 25) ^ k"
    by (simp add: dt)
  from up have up': "\<forall>k. r k ! 0 \<le> r (Suc k) ! 0 \<and> r (Suc k) ! 0 \<le> 1"
    by simp
  from run val' up' lim
  have "\<exists>r. (\<forall>k. magnitudes_after k trot_net uncoupled_heap = Inr (r k)) \<and>
        (\<forall>k. r k ! 0 = 1 - (24 / 25) ^ k) \<and>
        (\<forall>k. r k ! 0 \<le> r (Suc k) ! 0 \<and> r (Suc k) ! 0 \<le> 1) \<and>
        (\<forall>\<epsilon>>0. \<exists>K. \<forall>k\<ge>K. \<bar>r k ! 0 - 1\<bar> < \<epsilon>)"
    by blast
  with uncoupled_well_shaped trot_owns_state i r0 R a lo hi show ?thesis
    by blast
qed

text \<open>
  C5 as stated, for every network with zero coupling, fails when \<open>timestep * a\<close> is large:
  with coefficient 1500 and steps of 2 ms the magnitudes read 3, -3, 9 after one, two and
  three steps, away from the target 1.
\<close>

theorem magnitude_overshoot_counterexample:
  "well_shaped trot_net stiff_heap \<and> owns_state trot_net \<and> zero_coupling trot_net stiff_heap \<and>
   0 < timestep trot_net \<and>
   data (cells stiff_heap (intrinsic_amps trot_net)) = [1, 1, 1, 1] \<and>
   data (cells stiff_heap (curr_magnitudes trot_net)) = [0, 0, 0, 0] \<and>
   magnitudes_after 1 trot_net stiff_heap = Inr [3, 3, 3, 3] \<and>
   magnitudes_after 2 trot_net stiff_heap = Inr [- 3, - 3, - 3, - 3] \<and>
   magnitudes_after 3 trot_net stiff_heap = Inr [9, 9, 9, 9]"
proof -
  have "data (cells stiff_heap (intrinsic_amps trot_net)) = [1, 1, 1, 1]"
    and "data (cells stiff_heap (curr_magnitudes trot_net)) = [0, 0, 0, 0]"
    and "0 < timestep trot_net"
    by (simp_all add: trot_net_def stiff_heap_def uncoupled_heap_def trot_heap_def)
  moreover have "magnitudes_after k trot_net stiff_heap =
      Inr [1 - (- 2) ^ k, 1 - (- 2) ^ k, 1 - (- 2) ^ k, 1 - (- 2) ^ k]" for k
    by (simp only: steps_relaxed [OF stiff_well_shaped trot_owns_state] stiff_relaxed)
  from this [of 1] this [of 2] this [of 3]
  have "magnitudes_after 1 trot_net stiff_heap = Inr [3, 3, 3, 3]"
    and "magnitudes_after 2 trot_net stiff_heap = Inr [- 3, - 3, - 3, - 3]"
    and "magnitudes_after 3 trot_net stiff_heap = Inr [9, 9, 9, 9]"
    by simp_all
  ultimately show ?thesis
    using stiff_well_shaped trot_owns_state stiff_zero_coupling by blast
qed

section \<open>Magnitudes do not depend on the phase subsystem\<close>

text \<open>
  C10, amended. Take two networks with the documented shapes, each with state arrays of
  its own, that have the same timestep and equal \<^verbatim>\<open>convergence_coefs\<close>, \<^verbatim>\<open>intrinsic_amps\<close>
  and initial \<^verbatim>\<open>curr_magnitudes\<close>, whatever their phases, frequencies, coupling weights
  and phase biases are. Then for every \<open>k\<close>, \<open>k\<close> calls of \<^verbatim>\<open>step\<close> return on both and the
  two magnitude vectors read afterwards are the same.
\<close>

theorem magnitudes_independent_of_phases:
  fixes self1 :: "'a CPGNetwork" and self2 :: "'b CPGNetwork"
  assumes "well_shaped self1 h1" and "owns_state self1"
    and "well_shaped self2 h2" and "owns_state self2"
    and "timestep self1 = timestep self2"
    and "cells h1 (convergence_coefs self1) = cells h2 (convergence_coefs self2)"
    and "cells h1 (intrinsic_amps self1) = cells h2 (intrinsic_amps self2)"
    and "cells h1 (curr_magnitudes self1) = cells h2 (curr_magnitudes self2)"
  shows "\<exists>rs. magnitudes_after k self1 h1 = Inr rs \<and> magnitudes_after k self2 h2 = Inr rs"
proof -
  from assms(1,3,8) have "[num_cpgs self1] = [num_cpgs self2]"
    by (simp add: well_shaped_def Let_def has_shape_def)
  then have "num_cpgs self1 = num_cpgs self2"
    by simp
  then show ?thesis
    using assms(5-8)
    by (simp add: steps_magnitudes [OF assms(1,2)] steps_magnitudes [OF assms(3,4)])
qed

text \<open>The trot network and the uncoupled one, 1000 steps each.\<close>

theorem magnitudes_independent_of_phases_witness:
  "well_shaped trot_net trot_heap \<and> well_shaped trot_net uncoupled_heap \<and> owns_state trot_net \<and>
   cells trot_heap (convergence_coefs trot_net) = cells uncoupled_heap (convergence_coefs trot_net) \<and>
   cells trot_heap (intrinsic_amps trot_net) = cells uncoupled_heap (intrinsic_amps trot_net) \<and>
   cells trot_heap (curr_magnitudes trot_net) = cells uncoupled_heap (curr_magnitudes trot_net) \<and>
   cells trot_heap (curr_phases trot_net) \<noteq> cells uncoupled_heap (curr_phases trot_net) \<and>
   cells trot_heap (intrinsic_freqs trot_net) \<noteq> cells uncoupled_heap (intrinsic_freqs trot_net) \<and>
   cells trot_heap (coupling_weights trot_net) \<noteq> cells uncoupled_heap (coupling_weights trot_net) \<and>
   (\<exists>rs. magnitudes_after 1000 trot_net trot_heap = Inr rs \<and>
         magnitudes_after 1000 trot_net uncoupled_heap = Inr rs)"
proof -
  have c: "cells trot_heap (convergence_coefs trot_net) =
      cells uncoupled_heap (convergence_coefs trot_net)"
    and a: "cells trot_heap (intrinsic_amps trot_net) = cells uncoupled_heap (intrinsic_amps trot_net)"
    and m: "cells trot_heap (curr_magnitudes trot_net) =
      cells uncoupled_heap (curr_magnitudes trot_net)"
    and "cells trot_heap (curr_phases trot_net) \<noteq> cells uncoupled_heap (curr_phases trot_net)"
    and "cells trot_heap (intrinsic_freqs trot_net) \<noteq>
      cells uncoupled_heap (intrinsic_freqs trot_net)"
    and "cells trot_heap (coupling_weights trot_net) \<noteq>
      cells uncoupled_heap (coupling_weights trot_net)"
    by (simp_all add: trot_net_def uncoupled_heap_def trot_heap_def)
  moreover note magnitudes_independent_of_phases
    [OF trot_well_shaped trot_owns_state uncoupled_well_shaped trot_owns_state refl c a m,
      of 1000]
  ultimately show ?thesis
    using trot_well_shaped uncoupled_well_shaped trot_owns_state by blast
qed

text \<open>
  C10 as stated, for any two networks, fails where one of them has one array for both
  state vectors: its magnitudes then also take the phase increments.
\<close>

theorem magnitudes_shared_array_counterexample:
  "well_shaped shared_net trot_heap \<and> well_shaped trot_net trot_heap \<and>
   timestep shared_net = timestep trot_net \<and>
   cells trot_heap (convergence_coefs shared_net) = cells trot_heap (convergence_coefs trot_net) \<and>
   cells trot_heap (intrinsic_amps shared_net) = cells trot_heap (intrinsic_amps trot_net) \<and>
   cells trot_heap (curr_magnitudes shared_net) = cells trot_heap (curr_magnitudes trot_net) \<and>
   magnitudes_after 1 shared_net trot_heap \<noteq> magnitudes_after 1 trot_net trot_heap"
proof -
  have "magnitudes_after 1 shared_net trot_heap \<noteq> magnitudes_after 1 trot_net trot_heap"
    unfolding shared_magnitudes trot_magnitudes by simp
  moreover have "timestep shared_net = timestep trot_net"
    and "cells trot_heap (convergence_coefs shared_net) =
      cells trot_heap (convergence_coefs trot_net)"
    and "cells trot_heap (intrinsic_amps shared_net) = cells trot_heap (intrinsic_amps trot_net)"
    and "cells trot_heap (curr_magnitudes shared_net) = cells trot_heap (curr_magnitudes trot_net)"
    by (simp_all add: shared_net_def trot_net_def trot_heap_def)
  ultimately show ?thesis
    using shared_well_shaped trot_well_shaped by blast
qed

section \<open>What one step writes\<close>

text \<open>
  C7, amended. A call of \<^verbatim>\<open>step\<close> that returns has assigned no attribute of the object
  (the model of \<^verbatim>\<open>step\<close> returns the heap only: \<^verbatim>\<open>timestep\<close> and the seven references stay
  as they are), has allocated nothing, and has written into no array but the two that
  \<^verbatim>\<open>curr_phases\<close> and \<^verbatim>\<open>curr_magnitudes\<close> refer to. So every parameter array keeps its
  contents when the state arrays are objects of the network's own.
\<close>

theorem step_frame:
  assumes "step self h = Inr h'"
  shows "next_free h' = next_free h \<and>
         (\<forall>a. a \<noteq> curr_phases self \<and> a \<noteq> curr_magnitudes self \<longrightarrow> cells h' a = cells h a) \<and>
         (owns_state self \<longrightarrow> (\<forall>a\<in>parameters self. cells h' a = cells h a))"
proof -
  from assms obtain d h1 where
    h1: "iadd h (curr_phases self) (scalar_mul (timestep self) (fst d)) = Inr h1" and
    h': "iadd h1 (curr_magnitudes self) (scalar_mul (timestep self) (snd d)) = Inr h'"
    by (auto simp: step_def and_then_def split: sum.splits prod.splits)
  from iadd_frame [OF h1] iadd_frame [OF h']
  have "next_free h' = next_free h"
    and frame: "\<forall>a. a \<noteq> curr_phases self \<and> a \<noteq> curr_magnitudes self \<longrightarrow> cells h' a = cells h a"
    by simp_all
  moreover from frame have "\<forall>a\<in>parameters self. cells h' a = cells h a" if "owns_state self"
    using that unfolding owns_state_def by metis
  ultimately show ?thesis
    by blast
qed

theorem step_frame_witness:
  "step trot_net trot_heap = Inr trot_after \<and> owns_state trot_net \<and>
   next_free trot_after = next_free trot_heap \<and>
   cells trot_after (intrinsic_freqs trot_net) = cells trot_heap (intrinsic_freqs trot_net) \<and>
   cells trot_after (intrinsic_amps trot_net) = cells trot_heap (intrinsic_amps trot_net) \<and>
   cells trot_after (coupling_weights trot_net) = cells trot_heap (coupling_weights trot_net) \<and>
   cells trot_after (phase_biases trot_net) = cells trot_heap (phase_biases trot_net) \<and>
   cells trot_after (convergence_coefs trot_net) = cells trot_heap (convergence_coefs trot_net)"
  using step_frame [OF trot_step] trot_step trot_owns_state
  by (simp add: parameters_def)

text \<open>
  C7 as stated, for every network, fails where a parameter is the same array as a state
  vector: \<^verbatim>\<open>x\<close> is passed as \<^verbatim>\<open>intrinsic_freqs\<close> and as \<^verbatim>\<open>init_magnitudes\<close>, and after one
  step the frequencies read 1.04 instead of 1.
\<close>

theorem step_writes_parameter_counterexample:
  "well_shaped reuse_net reuse_heap \<and> step reuse_net reuse_heap = Inr reuse_after \<and>
   cells reuse_after (intrinsic_freqs reuse_net) \<noteq> cells reuse_heap (intrinsic_freqs reuse_net)"
proof -
  have "cells reuse_after (intrinsic_freqs reuse_net) \<noteq>
      cells reuse_heap (intrinsic_freqs reuse_net)"
    by (simp add: reuse_after_def reuse_heap_def reuse_net_def trot_net_def)
  with reuse_well_shaped reuse_step show ?thesis
    by blast
qed

section \<open>What reset installs\<close>

text \<open>
  C3. With \<^verbatim>\<open>init_phases\<close> omitted, \<^verbatim>\<open>reset\<close> binds \<^verbatim>\<open>curr_phases\<close> to a new array of \<open>N\<close>
  elements, the next \<open>N\<close> draws of the instance's own generator scaled by \<open>2 pi\<close>, and
  advances the generator by these draws; each element lies in \<open>[0, 2 pi)\<close> when each draw
  lies in \<open>[0, 1)\<close>. With \<^verbatim>\<open>init_magnitudes\<close> omitted it binds \<^verbatim>\<open>curr_magnitudes\<close> to a new
  array of \<open>N\<close> zeros. A supplied array is installed as it is: the attribute refers to the
  caller's array, whose contents \<^verbatim>\<open>reset\<close> does not touch, and the generator is not
  consulted for it. No array that existed before the call is written. That the draws are
  independent and uniform is the generator's contract, which is numpy's.
\<close>

theorem reset_installs_state:
  assumes "reset nd self h ip im = (self', h')"
  shows "(ip = None \<longrightarrow>
            curr_phases self' = next_free h \<and>
            cells h' (curr_phases self') = drawn_phases nd self \<and>
            length (data (drawn_phases nd self)) = num_cpgs self \<and>
            random_state self' = snd (random_sample nd (random_state self) (num_cpgs self)) \<and>
            ((\<forall>g. 0 \<le> fst (nd g) \<and> fst (nd g) < 1) \<longrightarrow>
               (\<forall>x\<in>set (data (drawn_phases nd self)). 0 \<le> x \<and> x < 2 * pi))) \<and>
         (im = None \<longrightarrow>
            next_free h \<le> curr_magnitudes self' \<and>
            cells h' (curr_magnitudes self') =
              NDArray [num_cpgs self] (replicate (num_cpgs self) 0)) \<and>
         (\<forall>p. ip = Some p \<longrightarrow>
            curr_phases self' = p \<and> random_state self' = random_state self \<and>
            (p < next_free h \<longrightarrow> cells h' p = cells h p)) \<and>
         (\<forall>m. im = Some m \<longrightarrow>
            curr_magnitudes self' = m \<and> (m < next_free h \<longrightarrow> cells h' m = cells h m)) \<and>
         (\<forall>a. a < next_free h \<longrightarrow> cells h' a = cells h a)"
proof -
  have len: "length (data (drawn_phases nd self)) = num_cpgs self"
    by (simp add: drawn_phases_def length_random_sample)
  have range: "(\<forall>g. 0 \<le> fst (nd g) \<and> fst (nd g) < 1) \<longrightarrow>
      (\<forall>x\<in>set (data (drawn_phases nd self)). 0 \<le> x \<and> x < 2 * pi)"
    using drawn_phases_range [of nd self] by blast
  show ?thesis
  proof (cases ip)
    case None
    show ?thesis
    proof (cases im)
      case None
      with \<open>ip = None\<close> assms len range show ?thesis
        by (auto simp: reset_cases(1) drawn_phases_def)
    next
      case (Some m)
      with \<open>ip = None\<close> assms len range show ?thesis
        by (auto simp: reset_cases(2) drawn_phases_def)
    qed
  next
    case (Some p)
    show ?thesis
    proof (cases im)
      case None
      with \<open>ip = Some p\<close> assms show ?thesis
        by (auto simp: reset_cases(3))
    next
      case (Some m)
      with \<open>ip = Some p\<close> assms show ?thesis
        by (auto simp: reset_cases(4))
    qed
  qed
qed

theorem reset_installs_state_witness:
  "reset harmonic_draw trot_net trot_heap None None = (fresh_net, fresh_heap) \<and>
   (\<forall>g. 0 \<le> fst (harmonic_draw g) \<and> fst (harmonic_draw g) < 1) \<and>
   cells fresh_heap (curr_phases fresh_net) = NDArray [4] [pi, pi * 2 / 3, pi / 2, pi * 2 / 5] \<and>
   random_state fresh_net = 4 \<and>
   cells fresh_heap (curr_magnitudes fresh_net) = NDArray [4] [0, 0, 0, 0] \<and>
   reset harmonic_draw trot_net trot_heap (Some 5) (Some 6) = (trot_net, trot_heap) \<and>
   5 < next_free trot_heap \<and> 6 < next_free trot_heap \<and>
   curr_phases trot_net = 5 \<and> curr_magnitudes trot_net = 6"
proof -
  from reset_installs_state [OF trot_reset_fresh]
  have "cells fresh_heap (curr_phases fresh_net) = drawn_phases harmonic_draw trot_net"
    and "random_state fresh_net =
      snd (random_sample harmonic_draw (random_state trot_net) (num_cpgs trot_net))"
    and "cells fresh_heap (curr_magnitudes fresh_net) =
      NDArray [num_cpgs trot_net] (replicate (num_cpgs trot_net) 0)"
    by blast+
  moreover have "num_cpgs trot_net = 4" "random_state trot_net = 0"
    by (simp_all add: trot_net_def)
  ultimately have "cells fresh_heap (curr_phases fresh_net) =
      NDArray [4] [pi, pi * 2 / 3, pi / 2, pi * 2 / 5]"
    and "random_state fresh_net = 4"
    and "cells fresh_heap (curr_magnitudes fresh_net) = NDArray [4] [0, 0, 0, 0]"
    by (simp_all add: drawn_phases_def harmonic_sample replicate4)
  moreover from reset_installs_state [OF trot_reset_same]
  have "curr_phases trot_net = 5 \<and> curr_magnitudes trot_net = 6"
    by blast
  moreover have "5 < next_free trot_heap" "6 < next_free trot_heap"
    by (simp_all add: trot_heap_def)
  ultimately show ?thesis
    using trot_reset_fresh trot_reset_same harmonic_range by blast
qed

section \<open>The shapes of the state vectors\<close>

text \<open>
  C6, amended. Both state vectors have shape \<open>(N,)\<close> after a construction that returns;
  a call of \<^verbatim>\<open>step\<close> that returns keeps them so; and \<^verbatim>\<open>reset\<close> leaves them so when each
  vector the caller supplies has shape \<open>(N,)\<close>.
\<close>

theorem state_shapes_invariant:
  "(CPGNetwork_init new_random_state nd h0 dt freqs amps weights biases coefs ip0 im0 seed =
      Inr (self0, h0') \<longrightarrow> state_shapes self0 h0') \<and>
   (state_shapes self h \<and> step self h = Inr h' \<longrightarrow> state_shapes self h') \<and>
   (reset nd' self1 h1 ip im = (self1', h1') \<and>
    (\<forall>p. ip = Some p \<longrightarrow> shape (cells h1 p) = [num_cpgs self1]) \<and>
    (\<forall>m. im = Some m \<longrightarrow> shape (cells h1 m) = [num_cpgs self1]) \<longrightarrow>
      state_shapes self1' h1')"
proof (intro conjI impI)
  assume "CPGNetwork_init new_random_state nd h0 dt freqs amps weights biases coefs ip0 im0 seed =
      Inr (self0, h0')"
  then show "state_shapes self0 h0'"
    by (rule init_state_shapes)
next
  assume "state_shapes self h \<and> step self h = Inr h'"
  then show "state_shapes self h'"
    by (simp add: state_shapes_def step_shapes [of self h h'])
next
  assume "reset nd' self1 h1 ip im = (self1', h1') \<and>
    (\<forall>p. ip = Some p \<longrightarrow> shape (cells h1 p) = [num_cpgs self1]) \<and>
    (\<forall>m. im = Some m \<longrightarrow> shape (cells h1 m) = [num_cpgs self1])"
  then show "state_shapes self1' h1'"
    using reset_state_shapes [of nd' self1 h1 ip im self1' h1'] by blast
qed

theorem state_shapes_invariant_witness:
  "CPGNetwork_init (\<lambda>seed. Inr 0) harmonic_draw trot_heap 0.002 0 1 3 2 4 (Some 5) (Some 6) 0 =
     Inr (trot_net, trot_heap) \<and>
   state_shapes trot_net trot_heap \<and>
   step trot_net trot_heap = Inr trot_after \<and>
   state_shapes trot_net trot_after \<and>
   reset harmonic_draw trot_net trot_heap (Some 5) (Some 6) = (trot_net, trot_heap) \<and>
   shape (cells trot_heap 5) = [num_cpgs trot_net] \<and>
   shape (cells trot_heap 6) = [num_cpgs trot_net]"
proof -
  have s: "shape (cells trot_heap 5) = [num_cpgs trot_net]"
    "shape (cells trot_heap 6) = [num_cpgs trot_net]"
    by (simp_all add: trot_heap_def trot_net_def)
  from state_shapes_invariant
    [of "\<lambda>seed. Inr 0" harmonic_draw trot_heap "0.002" 0 1 3 2 4 "Some 5" "Some 6" 0
      trot_net trot_heap trot_net trot_heap trot_after harmonic_draw
      trot_net trot_heap "Some 5" "Some 6" trot_net trot_heap]
    trot_init trot_step trot_reset_same s
  show ?thesis
    by simp
qed

text \<open>
  C6 as stated, for every \<^verbatim>\<open>reset\<close> call with caller-supplied vectors, fails: \<^verbatim>\<open>reset\<close>
  checks nothing, and a vector of three elements becomes the phase vector of a network of
  four oscillators.
\<close>

theorem reset_short_vector_counterexample:
  "state_shapes trot_net caller_heap \<and>
   reset harmonic_draw trot_net caller_heap (Some 7) (Some 6) =
     (trot_net\<lparr>curr_phases := 7\<rparr>, caller_heap) \<and>
   shape (cells caller_heap 7) = [3] \<and>
   \<not> state_shapes (trot_net\<lparr>curr_phases := 7\<rparr>) caller_heap"
  by (simp add: reset_cases(4) state_shapes_def trot_net_def caller_heap_def trot_heap_def)

section \<open>The shape checks of the constructor\<close>

text \<open>
  C2. The constructor does not check \<^verbatim>\<open>intrinsic_amps\<close>: with the trot arrays, four
  oscillators and \<^verbatim>\<open>intrinsic_amps = np.ones(3)\<close> it returns a network, and the first
  \<^verbatim>\<open>step\<close> of that network raises ValueError.
\<close>

theorem init_accepts_short_amps:
  "shape (cells short_amps_heap 0) = [4] \<and> shape (cells short_amps_heap 1) = [3] \<and>
   CPGNetwork_init (\<lambda>seed. Inr 0) harmonic_draw short_amps_heap 0.002 0 1 3 2 4 None None 0 =
     Inr (fresh_net, short_amps_built) \<and>
   step fresh_net short_amps_built = Inl ValueError"
  using short_amps_init short_amps_step
  by (simp add: short_amps_heap_def trot_heap_def)

section \<open>The joint-angle mapping\<close>

text \<open>
  C9. For every phase \<open>p\<close> and amplitude \<open>a\<close> the mapping returns the array
  \<open>[hip, thigh, calf]\<close> with hip 0, thigh \<open>0.8 - 0.3 a sin p\<close>, and calf
  \<open>-1.6 - 0.7 a sin p\<close> when \<open>sin p > 0\<close> and \<open>-1.6\<close> otherwise.
\<close>

theorem get_go1_target_angles_formula:
  "get_go1_target_angles p a =
     NDArray [3] [0, 0.8 - 0.3 * a * sin p,
                  (if sin p > 0 then - 1.6 - 0.7 * a * sin p else - 1.6)]"
  by (simp add: get_go1_target_angles_def Let_def)

section \<open>Stepping consults no random source\<close>

lemma step_random_state: "step (self\<lparr>random_state := g\<rparr>) h = step self h"
  by (simp add: step_def)

text \<open>
  C8. \<open>step\<close> is a function of the object and the heap, and of the object it reads
  no random source: whatever generator states two runs hold, \<open>k\<close> calls from the same
  heap with the same other attributes end in the same result.
\<close>

theorem steps_deterministic:
  "steps k (self\<lparr>random_state := g1\<rparr>) h = steps k (self\<lparr>random_state := g2\<rparr>) h"
proof (induction k arbitrary: h)
  case 0
  show ?case by simp
next
  case (Suc k)
  have "step (self\<lparr>random_state := g1\<rparr>) h = step (self\<lparr>random_state := g2\<rparr>) h"
    by (simp add: step_random_state)
  then show ?case
    by (simp add: Suc and_then_def split: sum.splits)
qed

end
